theory Spec2Isabelle
  imports Main "HOL-Library.Word"
begin

unbundle bit_operations_syntax

section \<open>Python values and failures\<close>

text \<open>
  Python integers are unbounded: addresses, values and shift results are \<open>int\<close>, and
  \<open>&\<close>, \<open>|\<close>, \<open>~\<close>, \<open>>>\<close>, \<open><<\<close> are \<open>AND\<close>, \<open>OR\<close>, \<open>NOT\<close>, \<open>drop_bit\<close>, \<open>push_bit\<close> on
  \<open>int\<close> (two's complement of unbounded width, floor shift), \<open>%\<close> and \<open>//\<close> are \<open>mod\<close> and
  \<open>div\<close>. A \<open>bytearray\<close> is a list of bytes. Every exception the source can raise is a
  value of \<open>error\<close>, and a function that can raise returns \<open>error + 'a\<close>.
\<close>

datatype error = IndexError | ValueError | OverflowError | AttributeError | KeyError

type_synonym byte = "8 word"

definition rbind :: "error + 'a \<Rightarrow> ('a \<Rightarrow> error + 'b) \<Rightarrow> error + 'b" where
  "rbind m f = (case m of Inl e \<Rightarrow> Inl e | Inr x \<Rightarrow> f x)"

definition len :: "'a list \<Rightarrow> int" where
  "len xs = int (length xs)"

text \<open>\<open>seq[i]\<close>: a negative index counts from the end, an index out of range raises.\<close>

definition py_index :: "'a list \<Rightarrow> int \<Rightarrow> error + nat" where
  "py_index xs i =
     (if 0 \<le> i \<and> i < len xs then Inr (nat i)
      else if - len xs \<le> i \<and> i < 0 then Inr (nat (len xs + i))
      else Inl IndexError)"

definition bytearray_get :: "byte list \<Rightarrow> int \<Rightarrow> error + int" where
  "bytearray_get mem i = rbind (py_index mem i) (\<lambda>k. Inr (uint (mem ! k)))"

text \<open>\<open>mem[i] = v\<close> on a bytearray: the value must be in \<open>range(256)\<close>.\<close>

definition bytearray_set :: "byte list \<Rightarrow> int \<Rightarrow> int \<Rightarrow> error + byte list" where
  "bytearray_set mem i v =
     (if 0 \<le> v \<and> v < 256
      then rbind (py_index mem i) (\<lambda>k. Inr (mem[k := word_of_int v]))
      else Inl ValueError)"

text \<open>\<open>v >> n\<close> and \<open>v << n\<close>: a negative shift count raises \<open>ValueError\<close>.\<close>

definition py_rshift :: "int \<Rightarrow> int \<Rightarrow> error + int" where
  "py_rshift v n = (if n < 0 then Inl ValueError else Inr (drop_bit (nat n) v))"

definition py_lshift :: "int \<Rightarrow> int \<Rightarrow> error + int" where
  "py_lshift v n = (if n < 0 then Inl ValueError else Inr (push_bit (nat n) v))"

text \<open>\<open>seq[lo:hi]\<close> and \<open>seq[lo:hi] = bs\<close>: slice bounds are clamped, never out of range.\<close>

definition slice_bound :: "'a list \<Rightarrow> int \<Rightarrow> nat" where
  "slice_bound xs i = (if i < 0 then nat (max 0 (len xs + i)) else nat (min i (len xs)))"

definition py_slice :: "'a list \<Rightarrow> int \<Rightarrow> int \<Rightarrow> 'a list" where
  "py_slice xs lo hi = take (slice_bound xs hi - slice_bound xs lo) (drop (slice_bound xs lo) xs)"

definition py_slice_assign :: "'a list \<Rightarrow> int \<Rightarrow> int \<Rightarrow> 'a list \<Rightarrow> 'a list" where
  "py_slice_assign xs lo hi ys =
     take (slice_bound xs lo) xs @ ys @ drop (max (slice_bound xs lo) (slice_bound xs hi)) xs"

section \<open>The memory manager of the test application (0.py, first draft)\<close>

text \<open>
  The region names that \<open>map_address\<close> returns as strings and \<open>getattr\<close> resolves to the
  buffers of the same name.
\<close>

datatype region = Bios | Ewram | Iwram | Io_regs | Palette | Vram | Oam | Rom | Sram | Invalid

text \<open>
  The entries of the \<open>warnings\<close> list. Each constructor stands for one message format of
  the source and carries the values the message is formatted from:
  \<^item> \<open>BiosTooLarge n\<close>: "BIOS data too large (n bytes), truncating"
  \<^item> \<open>UnmappedMemoryAccess a\<close>: "Unmapped memory access at 0x.."
  \<^item> \<open>OutOfBoundsRead r off\<close>: "Out of bounds read from r at offset 0x.."
  \<^item> \<open>UnalignedHalfwordRead a\<close>, \<open>UnalignedWordRead a\<close>: "Unaligned .. read at 0x.."
  \<^item> \<open>WriteToInvalid a\<close>, \<open>WriteToRom a\<close>, \<open>WriteToBios a\<close>: the three refused writes
  \<^item> \<open>OutOfBoundsWrite r off\<close>: "Out of bounds write to r at offset 0x.."
  \<^item> \<open>UnalignedHalfwordWrite a\<close>, \<open>UnalignedWordWrite a\<close>: "Unaligned .. write at 0x.."
  and, for the second draft of the class in the same file,
  \<^item> \<open>BiosTruncated n\<close>: "BIOS truncated to n bytes"
  \<^item> \<open>UnmappedAccess a\<close>: "Unmapped access 0x.."
  \<^item> \<open>OutOfBoundsReadAt r off\<close>: "Out of bounds read at r offset 0x.."
  \<^item> \<open>IllegalWrite r a\<close>: "Illegal write to r 0x.."
  \<^item> \<open>OutOfBoundsWriteAt r off\<close>: "Out of bounds write at r offset 0x.."
\<close>

datatype warning =
    BiosTooLarge int
  | UnmappedMemoryAccess int
  | OutOfBoundsRead region int
  | UnalignedHalfwordRead int
  | UnalignedWordRead int
  | WriteToInvalid int
  | WriteToRom int
  | WriteToBios int
  | OutOfBoundsWrite region int
  | UnalignedHalfwordWrite int
  | UnalignedWordWrite int
  | BiosTruncated int
  | UnmappedAccess int
  | OutOfBoundsReadAt region int
  | IllegalWrite region int
  | OutOfBoundsWriteAt region int

text \<open>
  \<open>MemoryManager\<close>: the buffers and the warnings list are the fields of both drafts; the
  first draft adds the two debug fields \<open>last_read_addr\<close> and \<open>last_write_addr\<close>.
\<close>

record memory_manager =
  bios :: "byte list"
  ewram :: "byte list"
  iwram :: "byte list"
  io_regs :: "byte list"
  palette :: "byte list"
  vram :: "byte list"
  oam :: "byte list"
  rom :: "byte list"
  sram :: "byte list"
  warnings :: "warning list"

record memory_manager1 = memory_manager +
  last_read_addr :: int
  last_write_addr :: int

text \<open>\<open>getattr(self, region)\<close>: there is no attribute called \<open>invalid\<close>.\<close>

definition getattr :: "'a memory_manager_scheme \<Rightarrow> region \<Rightarrow> error + byte list" where
  "getattr s r =
     (case r of
        Bios \<Rightarrow> Inr (bios s) | Ewram \<Rightarrow> Inr (ewram s) | Iwram \<Rightarrow> Inr (iwram s)
      | Io_regs \<Rightarrow> Inr (io_regs s) | Palette \<Rightarrow> Inr (palette s) | Vram \<Rightarrow> Inr (vram s)
      | Oam \<Rightarrow> Inr (oam s) | Rom \<Rightarrow> Inr (rom s) | Sram \<Rightarrow> Inr (sram s)
      | Invalid \<Rightarrow> Inl AttributeError)"

definition warn :: "warning \<Rightarrow> 'a memory_manager_scheme \<Rightarrow> 'a memory_manager_scheme" where
  "warn w s = s\<lparr>warnings := warnings s @ [w]\<rparr>"

text \<open>\<open>MemoryManager.__init__\<close> of the first draft.\<close>

definition memory_manager1_init :: memory_manager1 where
  "memory_manager1_init =
     \<lparr>bios = replicate (16 * 1024) 0, ewram = replicate (256 * 1024) 0,
      iwram = replicate (32 * 1024) 0, io_regs = replicate 1024 0,
      palette = replicate 1024 0, vram = replicate (96 * 1024) 0,
      oam = replicate 1024 0, rom = [], sram = replicate (64 * 1024) 0,
      warnings = [], last_read_addr = 0, last_write_addr = 0\<rparr>"

text \<open>
  \<open>load_bios\<close> (0.py, line 89): data that fits is copied over the start of the buffer;
  longer data is recorded as a warning and its first \<open>len(self.bios)\<close> bytes replace the
  contents of the buffer.
\<close>

definition load_bios :: "memory_manager1 \<Rightarrow> byte list \<Rightarrow> memory_manager1" where
  "load_bios s data =
     (if len data \<le> len (bios s)
      then s\<lparr>bios := py_slice_assign (bios s) 0 (len data) data\<rparr>
      else (let s1 = warn (BiosTooLarge (len data)) s in
            s1\<lparr>bios := py_slice_assign (bios s1) 0 (len (bios s1))
                           (py_slice data 0 (len (bios s1)))\<rparr>))"

text \<open>\<open>map_address\<close> (0.py, line 101).\<close>

definition map_address :: "memory_manager1 \<Rightarrow> int \<Rightarrow> (region \<times> int) \<times> memory_manager1" where
  "map_address s addr0 =
     (let addr = addr0 AND 0xFFFFFFFF in
      if 0x00000000 \<le> addr \<and> addr < 0x00004000 then ((Bios, addr), s)
      else if 0x02000000 \<le> addr \<and> addr < 0x02040000 then ((Ewram, addr - 0x02000000), s)
      else if 0x03000000 \<le> addr \<and> addr < 0x03008000 then ((Iwram, addr - 0x03000000), s)
      else if 0x04000000 \<le> addr \<and> addr < 0x04000400 then ((Io_regs, addr - 0x04000000), s)
      else if 0x05000000 \<le> addr \<and> addr < 0x05000400 then ((Palette, addr - 0x05000000), s)
      else if 0x06000000 \<le> addr \<and> addr < 0x06018000 then ((Vram, addr - 0x06000000), s)
      else if 0x07000000 \<le> addr \<and> addr < 0x07000400 then ((Oam, addr - 0x07000000), s)
      else if 0x08000000 \<le> addr \<and> addr < 0x08000000 + len (rom s)
        then ((Rom, addr - 0x08000000), s)
      else if 0x0E000000 \<le> addr \<and> addr < 0x0E010000 then ((Sram, addr - 0x0E000000), s)
      else ((Invalid, 0), warn (UnmappedMemoryAccess addr) s))"

text \<open>\<open>read_byte\<close> (0.py, line 125).\<close>

definition read_byte :: "memory_manager1 \<Rightarrow> int \<Rightarrow> error + (int \<times> memory_manager1)" where
  "read_byte s addr =
     (case map_address (s\<lparr>last_read_addr := addr\<rparr>) addr of
        ((region, offset), s1) \<Rightarrow>
          if region = Invalid then Inr (drop_bit 24 addr AND 0xFF, s1)
          else rbind (getattr s1 region) (\<lambda>mem.
            if offset < len mem
            then rbind (bytearray_get mem offset) (\<lambda>b. Inr (b, s1))
            else Inr (0, warn (OutOfBoundsRead region offset) s1)))"

text \<open>
  \<open>read_word\<close> (0.py, line 145). The operands of \<open>|\<close> are evaluated from left to right, so
  the four bytes are read in ascending address order on both paths.
\<close>

definition read_word :: "memory_manager1 \<Rightarrow> int \<Rightarrow> error + (int \<times> memory_manager1)" where
  "read_word s addr =
     (let s0 = s\<lparr>last_read_addr := addr\<rparr> in
      if addr AND 3 \<noteq> 0 then
        (let s1 = warn (UnalignedWordRead addr) s0;
             rot = (addr AND 3) * 8;
             aligned_addr = addr AND NOT 3
         in rbind (read_byte s1 aligned_addr) (\<lambda>(b0, s2).
            rbind (read_byte s2 (aligned_addr + 1)) (\<lambda>(b1, s3).
            rbind (read_byte s3 (aligned_addr + 2)) (\<lambda>(b2, s4).
            rbind (read_byte s4 (aligned_addr + 3)) (\<lambda>(b3, s5).
              (let val = b0 OR push_bit 8 b1 OR push_bit 16 b2 OR push_bit 24 b3 in
               rbind (py_rshift val rot) (\<lambda>lo.
               rbind (py_lshift val (32 - rot)) (\<lambda>hi.
                 Inr ((lo OR hi) AND 0xFFFFFFFF, s5)))))))))
      else
        rbind (read_byte s0 addr) (\<lambda>(b0, s2).
        rbind (read_byte s2 (addr + 1)) (\<lambda>(b1, s3).
        rbind (read_byte s3 (addr + 2)) (\<lambda>(b2, s4).
        rbind (read_byte s4 (addr + 3)) (\<lambda>(b3, s5).
          Inr (push_bit 24 b3 OR push_bit 16 b2 OR push_bit 8 b1 OR b0, s5))))))"

section \<open>The memory manager of the test application (0.py, second draft)\<close>

text \<open>
  \<open>value.to_bytes(size, 'little')\<close> raises \<open>OverflowError\<close> for a negative value and for one
  that does not fit in \<open>size\<close> bytes; \<open>int.from_bytes(bs, 'little')\<close> is its inverse.
\<close>

fun to_bytes_le :: "nat \<Rightarrow> int \<Rightarrow> byte list" where
  "to_bytes_le 0 v = []"
| "to_bytes_le (Suc n) v = word_of_int v # to_bytes_le n (v div 256)"

definition to_bytes :: "int \<Rightarrow> nat \<Rightarrow> error + byte list" where
  "to_bytes v sz = (if v < 0 \<or> 256 ^ sz \<le> v then Inl OverflowError else Inr (to_bytes_le sz v))"

fun from_bytes :: "byte list \<Rightarrow> int" where
  "from_bytes [] = 0"
| "from_bytes (b # bs) = uint b + 256 * from_bytes bs"

text \<open>\<open>MemoryManager.__init__\<close> of the second draft.\<close>

definition memory_manager_init :: memory_manager where
  "memory_manager_init =
     \<lparr>bios = replicate (16 * 1024) 0, ewram = replicate (256 * 1024) 0,
      iwram = replicate (32 * 1024) 0, io_regs = replicate 1024 0,
      palette = replicate 1024 0, vram = replicate (96 * 1024) 0,
      oam = replicate 1024 0, rom = [], sram = replicate (64 * 1024) 0,
      warnings = []\<rparr>"

text \<open>
  \<open>map_address\<close> (0.py, line 447): the loop over \<open>REGION_MAP\<close>, in the order of the table;
  the end of the \<open>rom\<close> entry is \<open>start + len(self.rom)\<close>. The address is not masked.
\<close>

definition map_address2 :: "memory_manager \<Rightarrow> int \<Rightarrow> (region \<times> int) \<times> memory_manager" where
  "map_address2 s addr =
     (if 0x00000000 \<le> addr \<and> addr < 0x00004000 then ((Bios, addr - 0x00000000), s)
      else if 0x02000000 \<le> addr \<and> addr < 0x02040000 then ((Ewram, addr - 0x02000000), s)
      else if 0x03000000 \<le> addr \<and> addr < 0x03008000 then ((Iwram, addr - 0x03000000), s)
      else if 0x04000000 \<le> addr \<and> addr < 0x04000400 then ((Io_regs, addr - 0x04000000), s)
      else if 0x05000000 \<le> addr \<and> addr < 0x05000400 then ((Palette, addr - 0x05000000), s)
      else if 0x06000000 \<le> addr \<and> addr < 0x06018000 then ((Vram, addr - 0x06000000), s)
      else if 0x07000000 \<le> addr \<and> addr < 0x07000400 then ((Oam, addr - 0x07000000), s)
      else if 0x08000000 \<le> addr \<and> addr < 0x08000000 + len (rom s)
        then ((Rom, addr - 0x08000000), s)
      else if 0x0E000000 \<le> addr \<and> addr < 0x0E010000 then ((Sram, addr - 0x0E000000), s)
      else ((Invalid, 0), warn (UnmappedAccess addr) s))"

text \<open>\<open>read\<close> (0.py, line 456), here \<open>read_mm\<close>.\<close>

definition read_mm :: "memory_manager \<Rightarrow> int \<Rightarrow> nat \<Rightarrow> error + (int \<times> memory_manager)" where
  "read_mm s addr sz =
     (case map_address2 s addr of
        ((region, offset), s1) \<Rightarrow>
          if region = Invalid then Inr (0, s1)
          else rbind (getattr s1 region) (\<lambda>mem.
            if offset + int sz \<le> len mem
            then Inr (from_bytes (py_slice mem offset (offset + int sz)), s1)
            else Inr (0, warn (OutOfBoundsReadAt region offset) s1)))"

definition setattr :: "memory_manager \<Rightarrow> region \<Rightarrow> byte list \<Rightarrow> memory_manager" where
  "setattr s r mem =
     (case r of
        Bios \<Rightarrow> s\<lparr>bios := mem\<rparr> | Ewram \<Rightarrow> s\<lparr>ewram := mem\<rparr> | Iwram \<Rightarrow> s\<lparr>iwram := mem\<rparr>
      | Io_regs \<Rightarrow> s\<lparr>io_regs := mem\<rparr> | Palette \<Rightarrow> s\<lparr>palette := mem\<rparr> | Vram \<Rightarrow> s\<lparr>vram := mem\<rparr>
      | Oam \<Rightarrow> s\<lparr>oam := mem\<rparr> | Rom \<Rightarrow> s\<lparr>rom := mem\<rparr> | Sram \<Rightarrow> s\<lparr>sram := mem\<rparr>
      | Invalid \<Rightarrow> s)"

text \<open>
  \<open>write\<close> (0.py, line 466), here \<open>write_mm\<close>. \<open>mem\<close> is the buffer object itself, so the slice assignment
  changes the region in place; \<open>to_bytes\<close> is evaluated before the assignment.
\<close>

definition write_mm :: "memory_manager \<Rightarrow> int \<Rightarrow> int \<Rightarrow> nat \<Rightarrow> error + memory_manager" where
  "write_mm s addr v sz =
     (case map_address2 s addr of
        ((region, offset), s1) \<Rightarrow>
          if region = Invalid \<or> region = Rom \<or> region = Bios
          then Inr (warn (IllegalWrite region addr) s1)
          else rbind (getattr s1 region) (\<lambda>mem.
            if offset + int sz \<le> len mem
            then rbind (to_bytes v sz) (\<lambda>bs.
                   Inr (setattr s1 region (py_slice_assign mem offset (offset + int sz) bs)))
            else Inr (warn (OutOfBoundsWriteAt region offset) s1)))"

section \<open>The emulator core (flamesgbav2.py)\<close>

subsection \<open>Constants\<close>

abbreviation (input) SCREEN_WIDTH :: int where "SCREEN_WIDTH \<equiv> 240"
abbreviation (input) SCREEN_HEIGHT :: int where "SCREEN_HEIGHT \<equiv> 160"
abbreviation (input) BIOS_START :: int where "BIOS_START \<equiv> 0x00000000"
abbreviation (input) BIOS_SIZE :: int where "BIOS_SIZE \<equiv> 0x4000"
abbreviation (input) EWRAM_START :: int where "EWRAM_START \<equiv> 0x02000000"
abbreviation (input) EWRAM_SIZE :: int where "EWRAM_SIZE \<equiv> 0x40000"
abbreviation (input) IWRAM_START :: int where "IWRAM_START \<equiv> 0x03000000"
abbreviation (input) IWRAM_SIZE :: int where "IWRAM_SIZE \<equiv> 0x8000"
abbreviation (input) IO_REG_START :: int where "IO_REG_START \<equiv> 0x04000000"
abbreviation (input) IO_REG_SIZE :: int where "IO_REG_SIZE \<equiv> 0x400"
abbreviation (input) PALETTE_RAM_START :: int where "PALETTE_RAM_START \<equiv> 0x05000000"
abbreviation (input) PALETTE_RAM_SIZE :: int where "PALETTE_RAM_SIZE \<equiv> 0x400"
abbreviation (input) VRAM_START :: int where "VRAM_START \<equiv> 0x06000000"
abbreviation (input) VRAM_SIZE :: int where "VRAM_SIZE \<equiv> 0x18000"
abbreviation (input) OAM_START :: int where "OAM_START \<equiv> 0x07000000"
abbreviation (input) OAM_SIZE :: int where "OAM_SIZE \<equiv> 0x400"
abbreviation (input) GAMEPAK_ROM_START :: int where "GAMEPAK_ROM_START \<equiv> 0x08000000"

abbreviation (input) MODE_USER :: int where "MODE_USER \<equiv> 0x10"
abbreviation (input) MODE_FIQ :: int where "MODE_FIQ \<equiv> 0x11"
abbreviation (input) MODE_IRQ :: int where "MODE_IRQ \<equiv> 0x12"
abbreviation (input) MODE_SUPERVISOR :: int where "MODE_SUPERVISOR \<equiv> 0x13"
abbreviation (input) MODE_ABORT :: int where "MODE_ABORT \<equiv> 0x17"
abbreviation (input) MODE_UNDEFINED :: int where "MODE_UNDEFINED \<equiv> 0x1B"
abbreviation (input) MODE_SYSTEM :: int where "MODE_SYSTEM \<equiv> 0x1F"

subsection \<open>The objects\<close>

text \<open>
  \<open>Memory\<close>. The field names carry the prefix \<open>mem_\<close>. \<open>sram\<close> and \<open>dummy_unmapped\<close> are
  attributes that the address decoder creates on first use (\<open>None\<close>: not created yet);
  \<open>mem_ppu\<close> and \<open>mem_keypad\<close> say whether \<open>connect_ppu\<close> and \<open>connect_keypad\<close> have set
  the references to the two objects of the emulator.
\<close>

record memory =
  mem_bios :: "byte list"
  mem_ewram :: "byte list"
  mem_iwram :: "byte list"
  mem_gamepak_rom :: "byte list"
  mem_io_regs :: "byte list"
  mem_palette_ram :: "byte list"
  mem_vram :: "byte list"
  mem_oam :: "byte list"
  mem_sram :: "byte list option"
  mem_dummy_unmapped :: "byte list option"
  mem_ppu :: bool
  mem_keypad :: bool

text \<open>
  \<open>ARM7TDMI\<close>. \<open>R\<close> and the banks are arrays of unsigned machine integers, \<open>R_banked\<close> and
  \<open>SPSR\<close> are dictionaries keyed by the mode number.
\<close>

record arm7tdmi =
  R :: "int list"
  R_banked :: "int \<rightharpoonup> int list"
  CPSR :: int
  SPSR :: "int \<rightharpoonup> int"
  cycles :: int

text \<open>
  \<open>PPU\<close>. \<open>render_log\<close> is not a field of the source: it is a history variable that
  records the argument of every call of \<open>render_scanline\<close>; no function reads it.
\<close>

record ppu =
  frame_buffer :: "string list"
  current_scanline :: int
  cycles_scanline :: int
  color_cache :: "int \<rightharpoonup> string"
  render_log :: "int list"

record keypad =
  key_state :: int

text \<open>
  The emulator: the four objects that \<open>GBAEmulator.__init__\<close> creates. The CPU, the PPU
  and the keypad each hold a reference to the one \<open>Memory\<close> object; functions that follow
  such a reference take and return the whole record.
\<close>

record gba =
  memory :: memory
  cpu :: arm7tdmi
  ppu :: ppu
  keypad :: keypad

abbreviation (input) DISPCNT :: int where "DISPCNT \<equiv> 0x00"
abbreviation (input) DISPSTAT :: int where "DISPSTAT \<equiv> 0x04"
abbreviation (input) VCOUNT :: int where "VCOUNT \<equiv> 0x06"

subsection \<open>Containers\<close>

text \<open>
  \<open>array.array('L', ..)\<close>: an element is an unsigned long, at least 32 bits wide; storing a
  value outside the type raises \<open>OverflowError\<close>. The model takes the 32 bits every
  platform has; all stores of the source are masked to 32 bits before.
\<close>

definition array_get :: "int list \<Rightarrow> int \<Rightarrow> error + int" where
  "array_get a i = rbind (py_index a i) (\<lambda>k. Inr (a ! k))"

definition array_set :: "int list \<Rightarrow> int \<Rightarrow> int \<Rightarrow> error + int list" where
  "array_set a i v =
     (if 0 \<le> v \<and> v < 2 ^ 32
      then rbind (py_index a i) (\<lambda>k. Inr (a[k := v]))
      else Inl OverflowError)"

definition dict_get :: "('k \<rightharpoonup> 'v) \<Rightarrow> 'k \<Rightarrow> error + 'v" where
  "dict_get d k = (case d k of None \<Rightarrow> Inl KeyError | Some v \<Rightarrow> Inr v)"

definition list_set :: "'a list \<Rightarrow> int \<Rightarrow> 'a \<Rightarrow> error + 'a list" where
  "list_set xs i v = rbind (py_index xs i) (\<lambda>k. Inr (xs[k := v]))"

text \<open>\<open>for x in ..: body\<close>, stopping at the first exception.\<close>

primrec foreach :: "'a list \<Rightarrow> ('a \<Rightarrow> 's \<Rightarrow> error + 's) \<Rightarrow> 's \<Rightarrow> error + 's" where
  "foreach [] f s = Inr s"
| "foreach (x # xs) f s = rbind (f x s) (foreach xs f)"

definition range :: "nat \<Rightarrow> int list" where
  "range n = map int [0..<n]"

subsection \<open>Memory\<close>

text \<open>\<open>Memory.__init__\<close>.\<close>

definition memory_init :: memory where
  "memory_init =
     \<lparr>mem_bios = replicate (nat BIOS_SIZE) 0, mem_ewram = replicate (nat EWRAM_SIZE) 0,
      mem_iwram = replicate (nat IWRAM_SIZE) 0, mem_gamepak_rom = [],
      mem_io_regs = replicate (nat IO_REG_SIZE) 0,
      mem_palette_ram = replicate (nat PALETTE_RAM_SIZE) 0,
      mem_vram = replicate (nat VRAM_SIZE) 0, mem_oam = replicate (nat OAM_SIZE) 0,
      mem_sram = None, mem_dummy_unmapped = None, mem_ppu = False, mem_keypad = False\<rparr>"

text \<open>\<open>Memory.load_bios\<close> (line 302).\<close>

definition mem_load_bios :: "memory \<Rightarrow> byte list \<Rightarrow> error + memory" where
  "mem_load_bios m data =
     (if len data > BIOS_SIZE then Inl ValueError
      else Inr (m\<lparr>mem_bios := py_slice_assign (mem_bios m) 0 (len data) data\<rparr>))"

definition mem_load_rom :: "memory \<Rightarrow> byte list \<Rightarrow> memory" where
  "mem_load_rom m data = m\<lparr>mem_gamepak_rom := data\<rparr>"

text \<open>
  \<open>_get_memory_region_and_offset\<close> (line 312) returns the buffer object and an offset. The
  model returns the name of the buffer (\<open>Rom\<close> for \<open>gamepak_rom\<close>, \<open>Palette\<close> for
  \<open>palette_ram\<close>, \<open>Invalid\<close> for \<open>dummy_unmapped\<close>); the buffers are distinct objects, so
  the source's \<open>is\<close> tests are equalities of names.
\<close>

definition get_memory_region_and_offset :: "memory \<Rightarrow> int \<Rightarrow> (region \<times> int) \<times> memory" where
  "get_memory_region_and_offset m addr0 =
     (let addr = addr0 AND 0xFFFFFFFF in
      if addr < BIOS_START + BIOS_SIZE then ((Bios, addr), m)
      else if EWRAM_START \<le> addr \<and> addr < EWRAM_START + 0xFFFFFF
        then ((Ewram, (addr - EWRAM_START) mod EWRAM_SIZE), m)
      else if IWRAM_START \<le> addr \<and> addr < IWRAM_START + 0xFFFFFF
        then ((Iwram, (addr - IWRAM_START) mod IWRAM_SIZE), m)
      else if IO_REG_START \<le> addr \<and> addr < IO_REG_START + 0xFFFFFF
        then ((Io_regs, (addr - IO_REG_START) mod IO_REG_SIZE), m)
      else if PALETTE_RAM_START \<le> addr \<and> addr < PALETTE_RAM_START + 0xFFFFFF
        then ((Palette, (addr - PALETTE_RAM_START) mod PALETTE_RAM_SIZE), m)
      else if VRAM_START \<le> addr \<and> addr < VRAM_START + 0xFFFFFF
        then ((Vram, (addr - VRAM_START) mod VRAM_SIZE), m)
      else if OAM_START \<le> addr \<and> addr < OAM_START + 0xFFFFFF
        then ((Oam, (addr - OAM_START) mod OAM_SIZE), m)
      else if GAMEPAK_ROM_START \<le> addr \<and> addr < GAMEPAK_ROM_START + len (mem_gamepak_rom m)
        then ((Rom, addr - GAMEPAK_ROM_START), m)
      else if 0x0E000000 \<le> addr \<and> addr < 0x0E010000
        then ((Sram, addr - 0x0E000000),
              if mem_sram m = None then m\<lparr>mem_sram := Some (replicate 0x10000 0)\<rparr> else m)
      else ((Invalid, 0),
            if mem_dummy_unmapped m = None then m\<lparr>mem_dummy_unmapped := Some (replicate 4 0)\<rparr>
            else m))"

text \<open>The buffer behind a name, and the store into it.\<close>

definition region_buf :: "memory \<Rightarrow> region \<Rightarrow> error + byte list" where
  "region_buf m r =
     (case r of
        Bios \<Rightarrow> Inr (mem_bios m) | Ewram \<Rightarrow> Inr (mem_ewram m) | Iwram \<Rightarrow> Inr (mem_iwram m)
      | Io_regs \<Rightarrow> Inr (mem_io_regs m) | Palette \<Rightarrow> Inr (mem_palette_ram m)
      | Vram \<Rightarrow> Inr (mem_vram m) | Oam \<Rightarrow> Inr (mem_oam m) | Rom \<Rightarrow> Inr (mem_gamepak_rom m)
      | Sram \<Rightarrow> (case mem_sram m of None \<Rightarrow> Inl AttributeError | Some b \<Rightarrow> Inr b)
      | Invalid \<Rightarrow> (case mem_dummy_unmapped m of None \<Rightarrow> Inl AttributeError | Some b \<Rightarrow> Inr b))"

definition set_region_buf :: "memory \<Rightarrow> region \<Rightarrow> byte list \<Rightarrow> memory" where
  "set_region_buf m r b =
     (case r of
        Bios \<Rightarrow> m\<lparr>mem_bios := b\<rparr> | Ewram \<Rightarrow> m\<lparr>mem_ewram := b\<rparr> | Iwram \<Rightarrow> m\<lparr>mem_iwram := b\<rparr>
      | Io_regs \<Rightarrow> m\<lparr>mem_io_regs := b\<rparr> | Palette \<Rightarrow> m\<lparr>mem_palette_ram := b\<rparr>
      | Vram \<Rightarrow> m\<lparr>mem_vram := b\<rparr> | Oam \<Rightarrow> m\<lparr>mem_oam := b\<rparr> | Rom \<Rightarrow> m\<lparr>mem_gamepak_rom := b\<rparr>
      | Sram \<Rightarrow> m\<lparr>mem_sram := Some b\<rparr> | Invalid \<Rightarrow> m\<lparr>mem_dummy_unmapped := Some b\<rparr>)"

text \<open>\<open>Keypad.get_keyinput_reg\<close> (line 559).\<close>

definition get_keyinput_reg :: "keypad \<Rightarrow> int" where
  "get_keyinput_reg k = key_state k"

text \<open>\<open>PPU.is_ppu_register\<close> and the register write handlers (lines 415 to 432).\<close>

definition is_ppu_register :: "int \<Rightarrow> bool" where
  "is_ppu_register addr = (let offset = addr - IO_REG_START in 0x00 \<le> offset \<and> offset \<le> 0x5F)"

definition write_register_byte :: "gba \<Rightarrow> int \<Rightarrow> int \<Rightarrow> error + gba" where
  "write_register_byte s addr v =
     (let offset = addr - IO_REG_START in
      rbind (bytearray_set (mem_io_regs (memory s)) offset v) (\<lambda>io.
        Inr (s\<lparr>memory := (memory s)\<lparr>mem_io_regs := io\<rparr>\<rparr>)))"

definition write_register_halfword :: "gba \<Rightarrow> int \<Rightarrow> int \<Rightarrow> error + gba" where
  "write_register_halfword s addr v =
     (let offset = addr - IO_REG_START in
      rbind (bytearray_set (mem_io_regs (memory s)) offset (v AND 0xFF)) (\<lambda>io.
      rbind (bytearray_set io (offset + 1) (drop_bit 8 v AND 0xFF)) (\<lambda>io'.
        Inr (s\<lparr>memory := (memory s)\<lparr>mem_io_regs := io'\<rparr>\<rparr>))))"


text \<open>\<open>Memory.read_byte\<close>, \<open>read_halfword\<close>, \<open>read_word\<close> (lines 337 to 360).\<close>

definition mem_read_byte :: "gba \<Rightarrow> int \<Rightarrow> error + (int \<times> gba)" where
  "mem_read_byte s addr =
     (case get_memory_region_and_offset (memory s) addr of
        ((mem_region, offset), m1) \<Rightarrow>
          (let s1 = s\<lparr>memory := m1\<rparr> in
           if mem_region = Io_regs \<and> addr = 0x04000130
           then Inr (if mem_keypad m1 then get_keyinput_reg (keypad s1) else 0xFF, s1)
           else rbind (region_buf m1 mem_region) (\<lambda>buf.
             if offset \<ge> len buf then Inr (0xFF, s1)
             else rbind (bytearray_get buf offset) (\<lambda>b. Inr (b, s1)))))"

definition mem_read_halfword :: "gba \<Rightarrow> int \<Rightarrow> error + (int \<times> gba)" where
  "mem_read_halfword s addr0 =
     (let addr = (if addr0 AND 1 \<noteq> 0 then addr0 AND NOT 1 else addr0) in
      case get_memory_region_and_offset (memory s) addr of
        ((mem_region, offset), m1) \<Rightarrow>
          (let s1 = s\<lparr>memory := m1\<rparr> in
           rbind (region_buf m1 mem_region) (\<lambda>buf.
             if offset + 1 \<ge> len buf then Inr (0xFFFF, s1)
             else rbind (bytearray_get buf offset) (\<lambda>b0.
                  rbind (bytearray_get buf (offset + 1)) (\<lambda>b1.
                    Inr (b0 OR push_bit 8 b1, s1))))))"

definition mem_read_word :: "gba \<Rightarrow> int \<Rightarrow> error + (int \<times> gba)" where
  "mem_read_word s addr0 =
     (let addr = (if addr0 AND 3 \<noteq> 0 then addr0 AND NOT 3 else addr0) in
      case get_memory_region_and_offset (memory s) addr of
        ((mem_region, offset), m1) \<Rightarrow>
          (let s1 = s\<lparr>memory := m1\<rparr> in
           rbind (region_buf m1 mem_region) (\<lambda>buf.
             if offset + 3 \<ge> len buf then Inr (0xFFFFFFFF, s1)
             else rbind (bytearray_get buf offset) (\<lambda>b0.
                  rbind (bytearray_get buf (offset + 1)) (\<lambda>b1.
                  rbind (bytearray_get buf (offset + 2)) (\<lambda>b2.
                  rbind (bytearray_get buf (offset + 3)) (\<lambda>b3.
                    Inr (b0 OR push_bit 8 b1 OR push_bit 16 b2 OR push_bit 24 b3, s1))))))))"

text \<open>
  \<open>Memory.write_byte\<close>, \<open>write_halfword\<close>, \<open>write_word\<close> (lines 362 to 401). The register
  handler of the PPU changes \<open>io_regs\<close> in place, and \<open>mem_region\<close> is that same object, so
  the final store goes into the buffer as the handler left it.
\<close>

definition mem_write_byte :: "gba \<Rightarrow> int \<Rightarrow> int \<Rightarrow> error + gba" where
  "mem_write_byte s addr val0 =
     (let val = val0 AND 0xFF in
      case get_memory_region_and_offset (memory s) addr of
        ((mem_region, offset), m1) \<Rightarrow>
          (let s1 = s\<lparr>memory := m1\<rparr> in
           if mem_region = Bios \<or> mem_region = Rom then Inr s1
           else
             rbind (if mem_region = Io_regs \<and> mem_ppu m1 \<and> is_ppu_register addr
                    then write_register_byte s1 addr val else Inr s1) (\<lambda>s2.
             rbind (region_buf (memory s2) mem_region) (\<lambda>buf.
               if offset \<ge> len buf then Inr s2
               else rbind (bytearray_set buf offset val) (\<lambda>buf1.
                 Inr (s2\<lparr>memory := set_region_buf (memory s2) mem_region buf1\<rparr>))))))"

definition mem_write_halfword :: "gba \<Rightarrow> int \<Rightarrow> int \<Rightarrow> error + gba" where
  "mem_write_halfword s addr0 val0 =
     (let val = val0 AND 0xFFFF;
          addr = (if addr0 AND 1 \<noteq> 0 then addr0 AND NOT 1 else addr0) in
      case get_memory_region_and_offset (memory s) addr of
        ((mem_region, offset), m1) \<Rightarrow>
          (let s1 = s\<lparr>memory := m1\<rparr> in
           if mem_region = Bios \<or> mem_region = Rom then Inr s1
           else
             rbind (if mem_region = Io_regs \<and> mem_ppu m1 \<and> is_ppu_register addr
                    then write_register_halfword s1 addr val else Inr s1) (\<lambda>s2.
             rbind (region_buf (memory s2) mem_region) (\<lambda>buf.
               if offset + 1 \<ge> len buf then Inr s2
               else rbind (bytearray_set buf offset (val AND 0xFF)) (\<lambda>buf1.
                    rbind (bytearray_set buf1 (offset + 1) (drop_bit 8 val AND 0xFF)) (\<lambda>buf2.
                 Inr (s2\<lparr>memory := set_region_buf (memory s2) mem_region buf2\<rparr>)))))))"


subsection \<open>Keypad\<close>

text \<open>\<open>Keypad.__init__\<close> (line 524): all buttons released, and the key map.\<close>

definition keypad_init :: keypad where
  "keypad_init = \<lparr>key_state = 0xFFFF\<rparr>"

definition key_map :: "string \<rightharpoonup> int" where
  "key_map = map_of
     [(''z'', 0), (''x'', 1), (''return'', 3), (''shift_r'', 2), (''up'', 6), (''down'', 7),
      (''left'', 5), (''right'', 4), (''a'', 9), (''s'', 8)]"

text \<open>\<open>str.lower\<close> on the ASCII letters, the characters of the key names.\<close>

definition lower_char :: "char \<Rightarrow> char" where
  "lower_char c = (let n = (of_char c :: nat) in if 65 \<le> n \<and> n \<le> 90 then char_of (n + 32) else c)"

definition lower :: "string \<Rightarrow> string" where
  "lower str = map lower_char str"

text \<open>\<open>Keypad.update_keyinput_reg\<close> (line 555).\<close>

definition update_keyinput_reg :: "gba \<Rightarrow> error + gba" where
  "update_keyinput_reg s =
     rbind (bytearray_set (mem_io_regs (memory s)) 0x130 (key_state (keypad s) AND 0xFF)) (\<lambda>io.
     rbind (bytearray_set io 0x131 (drop_bit 8 (key_state (keypad s)) AND 0xFF)) (\<lambda>io'.
       Inr (s\<lparr>memory := (memory s)\<lparr>mem_io_regs := io'\<rparr>\<rparr>)))"

text \<open>\<open>Keypad.key_down\<close> and \<open>key_up\<close> (lines 541 to 553).\<close>

definition key_down :: "gba \<Rightarrow> string \<Rightarrow> error + gba" where
  "key_down s key_name0 =
     (let key_name = lower key_name0;
          s1 = (case key_map key_name of
                  Some bit_no \<Rightarrow>
                    s\<lparr>keypad := (keypad s)\<lparr>key_state :=
                         key_state (keypad s) AND NOT (push_bit (nat bit_no) 1)\<rparr>\<rparr>
                | None \<Rightarrow> s)
      in update_keyinput_reg s1)"

definition key_up :: "gba \<Rightarrow> string \<Rightarrow> error + gba" where
  "key_up s key_name0 =
     (let key_name = lower key_name0;
          s1 = (case key_map key_name of
                  Some bit_no \<Rightarrow>
                    s\<lparr>keypad := (keypad s)\<lparr>key_state :=
                         key_state (keypad s) OR push_bit (nat bit_no) 1\<rparr>\<rparr>
                | None \<Rightarrow> s)
      in update_keyinput_reg s1)"

subsection \<open>PPU\<close>

text \<open>\<open>PPU.__init__\<close> (line 405).\<close>

definition ppu_init :: ppu where
  "ppu_init =
     \<lparr>frame_buffer = replicate (nat (SCREEN_WIDTH * SCREEN_HEIGHT)) ''#000000'',
      current_scanline = 0, cycles_scanline = 0, color_cache = Map.empty, render_log = []\<rparr>"

text \<open>
  The colour string \<open>f"#{r8:02x}{g8:02x}{b8:02x}"\<close>. \<open>fmt_02x\<close> is the format \<open>02x\<close> on
  \<open>0..255\<close>, the range of the channel values (\<open>(c5 * 255) // 31\<close> with \<open>c5\<close> masked to five
  bits).
\<close>

definition hex_digit :: "int \<Rightarrow> char" where
  "hex_digit d = ''0123456789abcdef'' ! nat d"

definition fmt_02x :: "int \<Rightarrow> string" where
  "fmt_02x v = [hex_digit (v div 16), hex_digit (v mod 16)]"

definition tk_color :: "int \<Rightarrow> int \<Rightarrow> int \<Rightarrow> string" where
  "tk_color r8 g8 b8 = CHR ''#'' # fmt_02x r8 @ fmt_02x g8 @ fmt_02x b8"

definition convert_color :: "int \<Rightarrow> string" where
  "convert_color color_15bit =
     (let r5 = color_15bit AND 0x1F;
          g5 = drop_bit 5 color_15bit AND 0x1F;
          b5 = drop_bit 10 color_15bit AND 0x1F;
          r8 = (r5 * 255) div 31;
          g8 = (g5 * 255) div 31;
          b8 = (b5 * 255) div 31
      in tk_color r8 g8 b8)"

text \<open>
  The cache lookup that both bitmap modes of \<open>render_scanline\<close> contain: a cached colour
  is taken as it is, a new one is converted and cached.
\<close>

definition cached_color :: "ppu \<Rightarrow> int \<Rightarrow> string \<times> ppu" where
  "cached_color p color_15bit =
     (case color_cache p color_15bit of
        Some tk \<Rightarrow> (tk, p)
      | None \<Rightarrow> (let tk = convert_color color_15bit
                 in (tk, p\<lparr>color_cache := (color_cache p)(color_15bit \<mapsto> tk)\<rparr>)))"

text \<open>\<open>self.frame_buffer[y * SCREEN_WIDTH + x] = colour\<close>.\<close>

definition put_pixel :: "gba \<Rightarrow> int \<Rightarrow> int \<Rightarrow> string \<Rightarrow> error + gba" where
  "put_pixel s y x colour =
     rbind (list_set (frame_buffer (ppu s)) (y * SCREEN_WIDTH + x) colour) (\<lambda>fb.
       Inr (s\<lparr>ppu := (ppu s)\<lparr>frame_buffer := fb\<rparr>\<rparr>))"

text \<open>
  The bodies of the pixel loops of modes 3 and 4; the loop state is the local variable
  \<open>vram_offset\<close> (\<open>vram_base\<close> in mode 4) and the emulator.
\<close>

definition mode3_pixel :: "int \<Rightarrow> int \<Rightarrow> int \<times> gba \<Rightarrow> error + (int \<times> gba)" where
  "mode3_pixel y x st =
     (case st of (vram_offset, s) \<Rightarrow>
        rbind
          (if vram_offset + 1 < VRAM_SIZE then
             rbind (bytearray_get (mem_vram (memory s)) vram_offset) (\<lambda>lo.
             rbind (bytearray_get (mem_vram (memory s)) (vram_offset + 1)) (\<lambda>hi.
               (case cached_color (ppu s) (lo OR push_bit 8 hi) of
                  (tk, p1) \<Rightarrow> put_pixel (s\<lparr>ppu := p1\<rparr>) y x tk)))
           else put_pixel s y x ''#FF00FF'')
          (\<lambda>s1. Inr (vram_offset + 2, s1)))"

definition mode4_pixel :: "int \<Rightarrow> int \<Rightarrow> int \<times> gba \<Rightarrow> error + (int \<times> gba)" where
  "mode4_pixel y x st =
     (case st of (vram_base, s) \<Rightarrow>
        rbind
          (if vram_base < VRAM_SIZE then
             rbind (bytearray_get (mem_vram (memory s)) vram_base) (\<lambda>palette_idx.
               (let pal_addr = palette_idx * 2 in
                if pal_addr + 1 < PALETTE_RAM_SIZE then
                  rbind (bytearray_get (mem_palette_ram (memory s)) pal_addr) (\<lambda>lo.
                  rbind (bytearray_get (mem_palette_ram (memory s)) (pal_addr + 1)) (\<lambda>hi.
                    (case cached_color (ppu s) (lo OR push_bit 8 hi) of
                       (tk, p1) \<Rightarrow> put_pixel (s\<lparr>ppu := p1\<rparr>) y x tk)))
                else put_pixel s y x ''#00FF00''))
           else put_pixel s y x ''#0000FF'')
          (\<lambda>s1. Inr (vram_base + 1, s1)))"

definition fill_line :: "gba \<Rightarrow> int \<Rightarrow> string \<Rightarrow> error + gba" where
  "fill_line s y colour = foreach (range (nat SCREEN_WIDTH)) (\<lambda>x s'. put_pixel s' y x colour) s"

text \<open>\<open>PPU.render_scanline\<close> (line 462); the first step is the history variable.\<close>

definition render_scanline :: "gba \<Rightarrow> int \<Rightarrow> error + gba" where
  "render_scanline s0 y =
     (let s = s0\<lparr>ppu := (ppu s0)\<lparr>render_log := render_log (ppu s0) @ [y]\<rparr>\<rparr> in
      rbind (mem_read_halfword s (IO_REG_START + DISPCNT)) (\<lambda>(dispcnt, s1).
        (let mode = dispcnt AND 0x7 in
         if mode = 3 then
           (if drop_bit 7 dispcnt AND 1 \<noteq> 0 then fill_line s1 y ''#000000''
            else rbind (foreach (range (nat SCREEN_WIDTH)) (mode3_pixel y)
                          (y * SCREEN_WIDTH * 2, s1)) (\<lambda>(vram_offset, s2). Inr s2))
         else if mode = 4 then
           (if drop_bit 7 dispcnt AND 1 \<noteq> 0 then fill_line s1 y ''#000000''
            else (let page_offset = (if drop_bit 4 dispcnt AND 1 \<noteq> 0 then 0xA000 else 0) in
                  rbind (foreach (range (nat SCREEN_WIDTH)) (mode4_pixel y)
                           (page_offset + y * SCREEN_WIDTH, s1)) (\<lambda>(vram_base, s2). Inr s2)))
         else fill_line s1 y ''#111111'')))"

text \<open>
  \<open>PPU.step\<close> (line 443), here \<open>ppu_step\<close>. The two tests on \<open>DISPSTAT\<close> guard \<open>pass\<close>
  statements; the first reads \<open>io_regs[DISPSTAT]\<close> directly, the second goes through the
  bus, and both reads are kept.
\<close>

definition ppu_step :: "gba \<Rightarrow> int \<Rightarrow> error + gba" where
  "ppu_step s cycles_in =
     (let s1 = s\<lparr>ppu := (ppu s)\<lparr>cycles_scanline := cycles_scanline (ppu s) + cycles_in\<rparr>\<rparr> in
      if cycles_scanline (ppu s1) \<ge> 1232 then
        (let s2 = s1\<lparr>ppu := (ppu s1)\<lparr>cycles_scanline := cycles_scanline (ppu s1) - 1232\<rparr>\<rparr> in
         rbind (if current_scanline (ppu s2) < SCREEN_HEIGHT
                then render_scanline s2 (current_scanline (ppu s2)) else Inr s2) (\<lambda>s3.
           (let s4 = s3\<lparr>ppu := (ppu s3)\<lparr>current_scanline := current_scanline (ppu s3) + 1\<rparr>\<rparr> in
            rbind (if current_scanline (ppu s4) = 160
                   then rbind (bytearray_get (mem_io_regs (memory s4)) DISPSTAT) (\<lambda>b. Inr s4)
                   else Inr s4) (\<lambda>s5.
              (let s6 = (if current_scanline (ppu s5) = 228
                         then s5\<lparr>ppu := (ppu s5)\<lparr>current_scanline := 0\<rparr>\<rparr> else s5) in
               rbind (mem_write_byte s6 (IO_REG_START + VCOUNT) (current_scanline (ppu s6))) (\<lambda>s7.
               rbind (mem_read_halfword s7 (IO_REG_START + DISPSTAT)) (\<lambda>(dispstat_val, s8).
                 Inr s8)))))))
      else Inr s1)"

text \<open>A sequence of \<open>PPU.step\<close> calls, one per cycle count, as the driver issues them.\<close>

fun advance :: "gba \<Rightarrow> int list \<Rightarrow> error + gba" where
  "advance s [] = Inr s"
| "advance s (c # cs) = rbind (ppu_step s c) (\<lambda>s1. advance s1 cs)"

subsection \<open>ARM7TDMI\<close>

text \<open>\<open>get_reg\<close> and \<open>set_reg\<close> (lines 79 to 106): the register banking.\<close>

definition banked_modes :: "int list" where
  "banked_modes = [MODE_IRQ, MODE_SUPERVISOR, MODE_ABORT, MODE_UNDEFINED]"

definition get_reg :: "arm7tdmi \<Rightarrow> int \<Rightarrow> error + int" where
  "get_reg c r_idx =
     (let current_mode = CPSR c AND 0x1F in
      if r_idx < 8 then array_get (R c) r_idx
      else if current_mode = MODE_FIQ \<and> r_idx \<ge> 8 \<and> r_idx \<le> 14
        then rbind (dict_get (R_banked c) MODE_FIQ) (\<lambda>bank. array_get bank (r_idx - 8))
      else if r_idx = 13 \<and> current_mode \<in> set banked_modes
        then rbind (dict_get (R_banked c) current_mode) (\<lambda>bank. array_get bank 0)
      else if r_idx = 14 \<and> current_mode \<in> set banked_modes
        then rbind (dict_get (R_banked c) current_mode) (\<lambda>bank. array_get bank 1)
      else array_get (R c) r_idx)"

definition set_bank :: "arm7tdmi \<Rightarrow> int \<Rightarrow> int \<Rightarrow> int \<Rightarrow> error + arm7tdmi" where
  "set_bank c mode i v =
     rbind (dict_get (R_banked c) mode) (\<lambda>bank.
     rbind (array_set bank i v) (\<lambda>bank'.
       Inr (c\<lparr>R_banked := (R_banked c)(mode \<mapsto> bank')\<rparr>)))"

definition set_R :: "arm7tdmi \<Rightarrow> int \<Rightarrow> int \<Rightarrow> error + arm7tdmi" where
  "set_R c i v = rbind (array_set (R c) i v) (\<lambda>r. Inr (c\<lparr>R := r\<rparr>))"

definition set_reg :: "arm7tdmi \<Rightarrow> int \<Rightarrow> int \<Rightarrow> error + arm7tdmi" where
  "set_reg c r_idx val0 =
     (let val = val0 AND 0xFFFFFFFF;
          current_mode = CPSR c AND 0x1F in
      if r_idx < 8 then set_R c r_idx val
      else if current_mode = MODE_FIQ \<and> r_idx \<ge> 8 \<and> r_idx \<le> 14
        then set_bank c MODE_FIQ (r_idx - 8) val
      else if r_idx = 13 \<and> current_mode \<in> set banked_modes
        then set_bank c current_mode 0 val
      else if r_idx = 14 \<and> current_mode \<in> set banked_modes
        then set_bank c current_mode 1 val
      else set_R c r_idx val)"

definition get_pc :: "arm7tdmi \<Rightarrow> error + int" where
  "get_pc c = array_get (R c) 15"

definition set_pc :: "arm7tdmi \<Rightarrow> int \<Rightarrow> error + arm7tdmi" where
  "set_pc c val = set_R c 15 (val AND 0xFFFFFFFF)"

definition get_flag_N :: "arm7tdmi \<Rightarrow> int" where "get_flag_N c = drop_bit 31 (CPSR c) AND 1"
definition get_flag_Z :: "arm7tdmi \<Rightarrow> int" where "get_flag_Z c = drop_bit 30 (CPSR c) AND 1"
definition get_flag_C :: "arm7tdmi \<Rightarrow> int" where "get_flag_C c = drop_bit 29 (CPSR c) AND 1"
definition get_flag_V :: "arm7tdmi \<Rightarrow> int" where "get_flag_V c = drop_bit 28 (CPSR c) AND 1"
definition get_flag_T :: "arm7tdmi \<Rightarrow> int" where "get_flag_T c = drop_bit 5 (CPSR c) AND 1"

definition set_thumb_mode :: "arm7tdmi \<Rightarrow> bool \<Rightarrow> arm7tdmi" where
  "set_thumb_mode c active =
     (if active then c\<lparr>CPSR := CPSR c OR push_bit 5 1\<rparr>
      else c\<lparr>CPSR := CPSR c AND NOT (push_bit 5 1)\<rparr>)"

text \<open>\<open>ARM7TDMI.reset\<close> (line 69) on the registers of \<open>__init__\<close>.\<close>

definition arm7tdmi_init :: arm7tdmi where
  "arm7tdmi_init =
     set_thumb_mode
       \<lparr>R = (replicate 16 0)[15 := BIOS_START],
        R_banked = [MODE_FIQ \<mapsto> replicate 7 0, MODE_IRQ \<mapsto> replicate 2 0,
                    MODE_SUPERVISOR \<mapsto> replicate 2 0, MODE_ABORT \<mapsto> replicate 2 0,
                    MODE_UNDEFINED \<mapsto> replicate 2 0],
        CPSR = MODE_SYSTEM OR 0xC0,
        SPSR = [MODE_FIQ \<mapsto> 0, MODE_IRQ \<mapsto> 0, MODE_SUPERVISOR \<mapsto> 0, MODE_ABORT \<mapsto> 0,
                MODE_UNDEFINED \<mapsto> 0],
        cycles = 0\<rparr> False"

text \<open>\<open>check_cond\<close> (line 126).\<close>

definition check_cond :: "arm7tdmi \<Rightarrow> int \<Rightarrow> bool" where
  "check_cond c cond =
     (if cond = 0x0 then get_flag_Z c = 1
      else if cond = 0x1 then get_flag_Z c = 0
      else if cond = 0x2 then get_flag_C c = 1
      else if cond = 0x3 then get_flag_C c = 0
      else if cond = 0x4 then get_flag_N c = 1
      else if cond = 0x5 then get_flag_N c = 0
      else if cond = 0x6 then get_flag_V c = 1
      else if cond = 0x7 then get_flag_V c = 0
      else if cond = 0x8 then get_flag_C c = 1 \<and> get_flag_Z c = 0
      else if cond = 0x9 then get_flag_C c = 0 \<or> get_flag_Z c = 1
      else if cond = 0xA then get_flag_N c = get_flag_V c
      else if cond = 0xB then get_flag_N c \<noteq> get_flag_V c
      else if cond = 0xC then get_flag_Z c = 0 \<and> get_flag_N c = get_flag_V c
      else if cond = 0xD then get_flag_Z c = 1 \<or> get_flag_N c \<noteq> get_flag_V c
      else if cond = 0xE then True
      else if cond = 0xF then False
      else False)"

text \<open>A method of the CPU, applied to the CPU of the emulator.\<close>

definition on_cpu :: "gba \<Rightarrow> (arm7tdmi \<Rightarrow> error + arm7tdmi) \<Rightarrow> error + gba" where
  "on_cpu s f = rbind (f (cpu s)) (\<lambda>c. Inr (s\<lparr>cpu := c\<rparr>))"

text \<open>The instruction handlers (lines 196 to 255).\<close>

definition arm_data_processing :: "gba \<Rightarrow> int \<Rightarrow> error + gba" where
  "arm_data_processing s opcode =
     (if opcode = 0xE1A00000 then Inr s
      else if opcode AND 0x0FFF0FFF = 0x01A00000 then
        (if drop_bit 12 opcode AND 0xF = 15 \<and> opcode AND 0xF = 14
         then rbind (get_reg (cpu s) 14) (\<lambda>lr. on_cpu s (\<lambda>c. set_pc c lr))
         else Inr s)
      else Inr s)"

definition arm_load_store :: "gba \<Rightarrow> int \<Rightarrow> error + gba" where
  "arm_load_store s opcode =
     (let is_ldr = drop_bit 20 opcode AND 1;
          is_byte = drop_bit 22 opcode AND 1;
          rn_idx = drop_bit 16 opcode AND 0xF;
          rd_idx = drop_bit 12 opcode AND 0xF in
      rbind (get_reg (cpu s) rn_idx) (\<lambda>base_addr.
        if is_ldr \<noteq> 0 \<and> rn_idx = 15 then
          (let offset = opcode AND 0xFFF in
           rbind (get_pc (cpu s)) (\<lambda>pc.
             (let addr = (pc AND NOT 2) + offset in
              rbind (if is_byte \<noteq> 0 then mem_read_byte s addr else mem_read_word s addr)
                (\<lambda>(val, s1). on_cpu s1 (\<lambda>c. set_reg c rd_idx val)))))
        else Inr s))"

definition arm_load_store_multiple :: "gba \<Rightarrow> int \<Rightarrow> error + gba" where
  "arm_load_store_multiple s opcode = Inr s"

definition arm_branch :: "gba \<Rightarrow> int \<Rightarrow> error + gba" where
  "arm_branch s opcode =
     (let offset0 = opcode AND 0x00FFFFFF;
          offset1 = (if offset0 AND 0x00800000 \<noteq> 0 then offset0 OR 0xFF000000 else offset0);
          offset = push_bit 2 offset1 in
      rbind (get_pc (cpu s)) (\<lambda>current_pc.
      rbind (if drop_bit 24 opcode AND 1 \<noteq> 0
             then on_cpu s (\<lambda>c. set_reg c 14 (current_pc - 4)) else Inr s) (\<lambda>s1.
        on_cpu s1 (\<lambda>c. set_pc c (current_pc + offset)))))"

definition arm_bx_blx :: "gba \<Rightarrow> int \<Rightarrow> error + gba" where
  "arm_bx_blx s opcode =
     (let rn_idx = opcode AND 0xF in
      rbind (get_reg (cpu s) rn_idx) (\<lambda>target_addr.
      rbind (if opcode AND 0x0FFFFFF0 = 0x012FFF30
             then rbind (get_pc (cpu s)) (\<lambda>pc. on_cpu s (\<lambda>c. set_reg c 14 (pc - 4)))
             else Inr s) (\<lambda>s1.
        on_cpu (s1\<lparr>cpu := set_thumb_mode (cpu s1) (target_addr AND 1 \<noteq> 0)\<rparr>)
          (\<lambda>c. set_pc c (target_addr AND NOT 1)))))"

definition arm_swi :: "gba \<Rightarrow> int \<Rightarrow> error + gba" where
  "arm_swi s opcode =
     (let swi_num = opcode AND 0xFFFFFF in
      if swi_num = 0x00 \<or> swi_num = 0x01 \<or> swi_num = 0x02
      then rbind (get_reg (cpu s) 14) (\<lambda>lr. on_cpu s (\<lambda>c. set_pc c lr))
      else Inr s)"

definition arm_multiply :: "gba \<Rightarrow> int \<Rightarrow> error + gba" where
  "arm_multiply s opcode = Inr s"

definition arm_swp :: "gba \<Rightarrow> int \<Rightarrow> error + gba" where
  "arm_swp s opcode = Inr s"

text \<open>
  \<open>execute_arm\<close> (line 161). In the source's test \<open>(opcode >> 24) & 0xF == 0xF\<close> the
  comparison binds tighter than \<open>&\<close>, so the test is \<open>(opcode >> 24) & True\<close>, bit 24.
\<close>

definition execute_arm :: "gba \<Rightarrow> int \<Rightarrow> error + gba" where
  "execute_arm s opcode =
     (let cond = drop_bit 28 opcode AND 0xF in
      if \<not> check_cond (cpu s) cond then Inr s
      else
        (let instr_type = drop_bit 25 opcode AND 0x7 in
         if instr_type = 0 \<or> instr_type = 1 then
           (if opcode AND 0x0FC000F0 = 0x00000090 then arm_multiply s opcode
            else if opcode AND 0x0FB00FF0 = 0x01000090 then arm_swp s opcode
            else if opcode AND 0x0FBF0FFF = 0x012FFF10 then arm_bx_blx s opcode
            else if drop_bit 22 opcode AND 0x3F = 8 \<and> drop_bit 4 opcode AND 0xF = 0 then Inr s
            else arm_data_processing s opcode)
         else if instr_type = 2 \<or> instr_type = 3 then arm_load_store s opcode
         else if instr_type = 4 then arm_load_store_multiple s opcode
         else if instr_type = 5 then arm_branch s opcode
         else if instr_type = 6 then Inr s
         else if instr_type = 7 then
           (if drop_bit 24 opcode AND 1 \<noteq> 0 then arm_swi s opcode else Inr s)
         else Inr s))"

text \<open>\<open>execute_thumb\<close> (line 257).\<close>

definition execute_thumb :: "gba \<Rightarrow> int \<Rightarrow> error + gba" where
  "execute_thumb s opcode =
     (if drop_bit 8 opcode = 0xD0 then
        (let cond = drop_bit 8 opcode AND 0xF in
         if check_cond (cpu s) cond then
           (let offset0 = opcode AND 0xFF;
                offset1 = (if offset0 AND 0x80 \<noteq> 0 then offset0 OR NOT 0xFF else offset0);
                offset = push_bit 1 offset1 in
            rbind (get_pc (cpu s)) (\<lambda>pc. on_cpu s (\<lambda>c. set_pc c (pc + offset))))
         else Inr s)
      else if drop_bit 11 opcode = 0x1C then
        (let offset0 = opcode AND 0x7FF;
             offset1 = (if offset0 AND 0x400 \<noteq> 0 then offset0 OR NOT 0x7FF else offset0);
             offset = push_bit 1 offset1 in
         rbind (get_pc (cpu s)) (\<lambda>pc. on_cpu s (\<lambda>c. set_pc c (pc + offset))))
      else if drop_bit 8 opcode = 0x47 then
        (let rm_idx = drop_bit 3 opcode AND 0xF in
         rbind (get_reg (cpu s) rm_idx) (\<lambda>target_addr.
           on_cpu (s\<lparr>cpu := set_thumb_mode (cpu s) (target_addr AND 1 \<noteq> 0)\<rparr>)
             (\<lambda>c. set_pc c (target_addr AND NOT 1))))
      else Inr s)"

text \<open>\<open>step\<close> (line 145): fetch, advance the program counter, execute, count a cycle.\<close>

definition step :: "gba \<Rightarrow> error + gba" where
  "step s =
     rbind (get_pc (cpu s)) (\<lambda>pc.
       if get_flag_T (cpu s) \<noteq> 0 then
         rbind (mem_read_halfword s pc) (\<lambda>(opcode, s1).
         rbind (on_cpu s1 (\<lambda>c. set_pc c (pc + 2))) (\<lambda>s2.
         rbind (execute_thumb s2 opcode) (\<lambda>s3.
           Inr (s3\<lparr>cpu := (cpu s3)\<lparr>cycles := cycles (cpu s3) + 1\<rparr>\<rparr>))))
       else
         rbind (mem_read_word s pc) (\<lambda>(opcode, s1).
         rbind (on_cpu s1 (\<lambda>c. set_pc c (pc + 4))) (\<lambda>s2.
         rbind (execute_arm s2 opcode) (\<lambda>s3.
           Inr (s3\<lparr>cpu := (cpu s3)\<lparr>cycles := cycles (cpu s3) + 1\<rparr>\<rparr>)))))"

text \<open>
  The emulator as \<open>GBAEmulator.__init__\<close> leaves it: the CPU has loaded its placeholder
  BIOS of \<open>MOV R0, R0\<close> instructions, and the PPU and the keypad are connected.
\<close>

definition dummy_bios :: "byte list" where
  "dummy_bios = concat (replicate (nat (BIOS_SIZE div 4)) [0x00, 0x00, 0xA0, 0xE1])"

definition gba_init :: gba where
  "gba_init =
     \<lparr>memory = memory_init\<lparr>mem_bios := dummy_bios, mem_ppu := True, mem_keypad := True\<rparr>,
      cpu = arm7tdmi_init, ppu = ppu_init, keypad = keypad_init\<rparr>"

section \<open>Notions of the specification\<close>

text \<open>
  The rotation of a 32-bit value to the right, as the word library defines it, read as
  an unsigned number.
\<close>

definition ror32 :: "int \<Rightarrow> nat \<Rightarrow> int" where
  "ror32 v n = uint (word_rotr n (word_of_int v :: 32 word))"

text \<open>
  What a byte read of the first draft returns and records, as functions of the buffers
  alone, and the state a read leaves behind.
\<close>

definition byte_value :: "memory_manager1 \<Rightarrow> int \<Rightarrow> int" where
  "byte_value s a =
     (case fst (map_address s a) of (r, off) \<Rightarrow>
        if r = Invalid then drop_bit 24 a AND 0xFF
        else (case getattr s r of Inl e \<Rightarrow> 0
              | Inr mem \<Rightarrow> if off < len mem then uint (mem ! nat off) else 0))"

definition byte_warnings :: "memory_manager1 \<Rightarrow> int \<Rightarrow> warning list" where
  "byte_warnings s a =
     (case fst (map_address s a) of (r, off) \<Rightarrow>
        if r = Invalid then [UnmappedMemoryAccess (a AND 0xFFFFFFFF)]
        else (case getattr s r of Inl e \<Rightarrow> []
              | Inr mem \<Rightarrow> if off < len mem then [] else [OutOfBoundsRead r off]))"

definition after_read :: "memory_manager1 \<Rightarrow> int \<Rightarrow> warning list \<Rightarrow> memory_manager1" where
  "after_read s a ws = s\<lparr>warnings := warnings s @ ws, last_read_addr := a\<rparr>"

definition word_value :: "memory_manager1 \<Rightarrow> int \<Rightarrow> int" where
  "word_value s b =
     byte_value s b OR push_bit 8 (byte_value s (b + 1)) OR
     push_bit 16 (byte_value s (b + 2)) OR push_bit 24 (byte_value s (b + 3))"

definition word_warnings :: "memory_manager1 \<Rightarrow> int \<Rightarrow> warning list" where
  "word_warnings s b =
     byte_warnings s b @ byte_warnings s (b + 1) @ byte_warnings s (b + 2) @
     byte_warnings s (b + 3)"

text \<open>
  The contents of the two lazily created buffers of \<open>Memory\<close>: a buffer that has not
  been created yet reads as the zeros it is created with.
\<close>

definition sram_view :: "memory \<Rightarrow> byte list" where
  "sram_view m = (case mem_sram m of None \<Rightarrow> replicate 0x10000 0 | Some b \<Rightarrow> b)"

definition dummy_view :: "memory \<Rightarrow> byte list" where
  "dummy_view m = (case mem_dummy_unmapped m of None \<Rightarrow> replicate 4 0 | Some b \<Rightarrow> b)"

text \<open>Two memories hold the same bytes in every region and the same connections.\<close>

definition same_memory :: "memory \<Rightarrow> memory \<Rightarrow> bool" where
  "same_memory m1 m \<longleftrightarrow>
     mem_bios m1 = mem_bios m \<and> mem_ewram m1 = mem_ewram m \<and> mem_iwram m1 = mem_iwram m \<and>
     mem_gamepak_rom m1 = mem_gamepak_rom m \<and> mem_io_regs m1 = mem_io_regs m \<and>
     mem_palette_ram m1 = mem_palette_ram m \<and> mem_vram m1 = mem_vram m \<and>
     mem_oam m1 = mem_oam m \<and> sram_view m1 = sram_view m \<and> dummy_view m1 = dummy_view m \<and>
     mem_ppu m1 = mem_ppu m \<and> mem_keypad m1 = mem_keypad m"

text \<open>An emulator whose RAM holds the bytes 11 22 33 44 at the start of the work RAM.\<close>

definition gba_example :: gba where
  "gba_example =
     gba_init\<lparr>memory := (memory gba_init)\<lparr>mem_ewram :=
        [0x11, 0x22, 0x33, 0x44] @ replicate (nat EWRAM_SIZE - 4) 0\<rparr>\<rparr>"

text \<open>The first-draft memory manager with the same four bytes in its work RAM.\<close>

definition memory_manager1_example :: memory_manager1 where
  "memory_manager1_example =
     memory_manager1_init\<lparr>ewram := [0x11, 0x22, 0x33, 0x44] @ replicate (256 * 1024 - 4) 0\<rparr>"

text \<open>
  The shapes that the constructors give the containers and that no function of the
  source changes: the lengths of the register arrays and of the fixed buffers.
\<close>

definition bank_len :: "arm7tdmi \<Rightarrow> int \<Rightarrow> nat \<Rightarrow> bool" where
  "bank_len c mode n = (case R_banked c mode of None \<Rightarrow> False | Some bank \<Rightarrow> length bank = n)"

definition cpu_ok :: "arm7tdmi \<Rightarrow> bool" where
  "cpu_ok c \<longleftrightarrow>
     length (R c) = 16 \<and> bank_len c MODE_FIQ 7 \<and> bank_len c MODE_IRQ 2 \<and>
     bank_len c MODE_SUPERVISOR 2 \<and> bank_len c MODE_ABORT 2 \<and> bank_len c MODE_UNDEFINED 2"

definition memory_ok :: "memory \<Rightarrow> bool" where
  "memory_ok m \<longleftrightarrow>
     len (mem_bios m) = BIOS_SIZE \<and> len (mem_ewram m) = EWRAM_SIZE \<and>
     len (mem_iwram m) = IWRAM_SIZE \<and> len (mem_io_regs m) = IO_REG_SIZE \<and>
     len (mem_palette_ram m) = PALETTE_RAM_SIZE \<and> len (mem_vram m) = VRAM_SIZE \<and>
     len (mem_oam m) = OAM_SIZE \<and> len (sram_view m) = 0x10000 \<and> len (dummy_view m) = 4"

definition ppu_ok :: "ppu \<Rightarrow> bool" where
  "ppu_ok p \<longleftrightarrow> len (frame_buffer p) = SCREEN_WIDTH * SCREEN_HEIGHT"

text \<open>
  The privileged modes of the processor: all modes but user mode. System mode has no
  bank of its own and uses the registers \<open>R\<close>.
\<close>

definition privileged_modes :: "int list" where
  "privileged_modes =
     [MODE_FIQ, MODE_IRQ, MODE_SUPERVISOR, MODE_ABORT, MODE_UNDEFINED, MODE_SYSTEM]"

text \<open>The constructed emulator with its program counter at the start of the work RAM.\<close>

definition gba_at_ram :: gba where
  "gba_at_ram = gba_init\<lparr>cpu := (cpu gba_init)\<lparr>R := (R (cpu gba_init))[15 := EWRAM_START]\<rparr>\<rparr>"

text \<open>Every colour in the conversion cache is the conversion of its key.\<close>

definition cache_ok :: "ppu \<Rightarrow> bool" where
  "cache_ok p \<longleftrightarrow> (\<forall>c tk. color_cache p c = Some tk \<longrightarrow> tk = convert_color c)"

text \<open>
  What rendering line \<open>y\<close> may change: pixels of that line of the frame buffer, and the
  colour cache; nothing else.
\<close>

definition line_rel :: "int \<Rightarrow> gba \<Rightarrow> gba \<Rightarrow> bool" where
  "line_rel y s s' \<longleftrightarrow>
     memory s' = memory s \<and> cpu s' = cpu s \<and> keypad s' = keypad s \<and>
     current_scanline (ppu s') = current_scanline (ppu s) \<and>
     cycles_scanline (ppu s') = cycles_scanline (ppu s) \<and>
     render_log (ppu s') = render_log (ppu s) \<and>
     length (frame_buffer (ppu s')) = length (frame_buffer (ppu s)) \<and>
     (\<forall>i. \<not> (nat (y * SCREEN_WIDTH) \<le> i \<and> i < nat (y * SCREEN_WIDTH + SCREEN_WIDTH)) \<longrightarrow>
          frame_buffer (ppu s') ! i = frame_buffer (ppu s) ! i) \<and>
     (cache_ok (ppu s) \<longrightarrow> cache_ok (ppu s'))"

text \<open>
  The number of calls, in a sequence of \<open>PPU.step\<close> calls with the given cycle counts,
  at which the accumulator reaches the threshold of 1232 cycles; \<open>acc\<close> is the
  accumulator before the first call.
\<close>

fun crossings :: "int \<Rightarrow> int list \<Rightarrow> nat" where
  "crossings acc [] = 0"
| "crossings acc (c # cs) =
     (if acc + c \<ge> 1232 then Suc (crossings (acc + c - 1232) cs) else crossings (acc + c) cs)"


text \<open>
  The display control register as the two bytes of \<open>io_regs\<close> hold it, and the setting of
  the white-pixel scenario: bitmap mode 3, forced blank off, and the first pixel of the
  frame buffer in video RAM holding the colour 0x7FFF.
\<close>

definition dispcnt_of :: "memory \<Rightarrow> int" where
  "dispcnt_of m = uint (mem_io_regs m ! 0) OR push_bit 8 (uint (mem_io_regs m ! 1))"

definition white_setup :: "memory \<Rightarrow> bool" where
  "white_setup m \<longleftrightarrow>
     dispcnt_of m AND 0x7 = 3 \<and> drop_bit 7 (dispcnt_of m) AND 1 = 0 \<and>
     mem_vram m ! 0 = 0xFF \<and> mem_vram m ! 1 = 0x7F"

text \<open>The constructed emulator after the value 3 (bitmap mode 3) was written to DISPCNT.\<close>

definition gba_mode3 :: gba where
  "gba_mode3 =
     gba_init\<lparr>memory := (memory gba_init)\<lparr>mem_io_regs :=
        (mem_io_regs (memory gba_init))[0 := 3, 1 := 0]\<rparr>\<rparr>"

section \<open>The bus of the emulator core decodes every address\<close>

lemma bytearray_get_in_range:
  "0 \<le> i \<Longrightarrow> i < len b \<Longrightarrow> bytearray_get b i = Inr (uint (b ! nat i))"
  by (simp add: bytearray_get_def py_index_def rbind_def)

lemma bytearray_set_in_range:
  "0 \<le> i \<Longrightarrow> i < len b \<Longrightarrow> 0 \<le> v \<Longrightarrow> v < 256 \<Longrightarrow>
   bytearray_set b i v = Inr (b[nat i := word_of_int v])"
  by (simp add: bytearray_set_def py_index_def rbind_def)

lemma len_list_update [simp]: "len (xs[i := v]) = len xs"
  by (simp add: len_def)

lemma and_not3_and3: "((a::int) AND - 4) AND 3 = 0"
  by (simp add: and.assoc)

lemma and3_zero_not3: "(a::int) AND 3 = 0 \<Longrightarrow> a AND - 4 = a"
proof -
  assume h: "a AND 3 = 0"
  have "a = (a AND 3) OR (a AND NOT 3)"
    by (simp add: bit.conj_disj_distrib [symmetric])
  then have "a = a AND NOT 3" using h by simp
  then show ?thesis by simp
qed

lemma decode_total:
  obtains r off m1 buf where
    "get_memory_region_and_offset m a = ((r, off), m1)" "0 \<le> off"
    "region_buf m1 r = Inr buf" "same_memory m1 m"
proof -
  have n: "0 \<le> a AND 0xFFFFFFFF" by simp
  have "\<exists>r off m1 buf. get_memory_region_and_offset m a = ((r, off), m1) \<and> 0 \<le> off \<and>
          region_buf m1 r = Inr buf \<and> same_memory m1 m"
    using n
    by (auto simp add: get_memory_region_and_offset_def Let_def region_buf_def same_memory_def
        sram_view_def dummy_view_def split: option.splits)
  then show ?thesis using that by blast
qed

lemma mem_read_word_total: "\<exists>v m1. mem_read_word s a = Inr (v, s\<lparr>memory := m1\<rparr>) \<and> same_memory m1 (memory s)"
proof -
  let ?addr = "if a AND 3 \<noteq> 0 then a AND NOT 3 else a"
  obtain r off m1 buf where d: "get_memory_region_and_offset (memory s) ?addr = ((r, off), m1)"
    "0 \<le> off" "region_buf m1 r = Inr buf" "same_memory m1 (memory s)"
    by (rule decode_total)
  show ?thesis
  proof (cases "off + 3 \<ge> len buf")
    case True
    then show ?thesis using d
      by (auto simp add: mem_read_word_def Let_def rbind_def intro!: exI [of _ m1])
  next
    case False
    then show ?thesis using d
      by (auto simp add: mem_read_word_def Let_def rbind_def bytearray_get_in_range
          intro!: exI [of _ m1])
  qed
qed

lemma mem_read_word_masks: "mem_read_word s a = mem_read_word s (a AND NOT 3)"
  by (cases "a AND 3 = 0") (simp_all add: mem_read_word_def and_not3_and3 and3_zero_not3)

lemma uint_byte_range: "0 \<le> uint (w::byte) \<and> uint w \<le> 255"
  using uint_bounded [of w] by simp

lemma byte_of_and: "uint (word_of_int (x AND 0xFF) :: byte) = x AND 0xFF"
proof -
  have "(0xFF::int) = mask 8" by (simp add: mask_eq_exp_minus_1)
  then show ?thesis by (simp add: uint_word_of_int_eq take_bit_eq_mask)
qed

lemma and_ff_range: "0 \<le> (x::int) AND 0xFF \<and> x AND 0xFF < 256"
proof -
  have "x AND 0xFF \<le> 0xFF" by (rule AND_upper2) simp
  then show ?thesis by simp
qed

lemma halves: "((x::int) AND 0xFF) OR push_bit 8 (drop_bit 8 x AND 0xFF) = x AND 0xFFFF"
proof -
  have m: "(0xFF::int) = mask 8" "(0xFFFF::int) = mask 16" by (simp_all add: mask_eq_exp_minus_1)
  show ?thesis unfolding m
    by (rule bit_eqI) (auto simp add: bit_and_iff bit_or_iff bit_push_bit_iff bit_drop_bit_eq bit_mask_iff)
qed

lemma mem_read_byte_keyinput:
  "mem_read_byte s 0x04000130 =
     Inr (if mem_keypad (memory s) then key_state (keypad s) else 0xFF, s)"
  by (simp add: mem_read_byte_def get_memory_region_and_offset_def Let_def get_keyinput_reg_def)

lemma mem_read_byte_other:
  assumes "a \<noteq> 0x04000130"
  shows "\<exists>v m1. mem_read_byte s a = Inr (v, s\<lparr>memory := m1\<rparr>) \<and> same_memory m1 (memory s) \<and>
           0 \<le> v \<and> v \<le> 255"
proof -
  obtain r off m1 buf where d: "get_memory_region_and_offset (memory s) a = ((r, off), m1)"
    "0 \<le> off" "region_buf m1 r = Inr buf" "same_memory m1 (memory s)"
    by (rule decode_total)
  show ?thesis
  proof (cases "off \<ge> len buf")
    case True
    then show ?thesis using d assms
      by (auto simp add: mem_read_byte_def Let_def rbind_def intro!: exI [of _ m1])
  next
    case False
    then show ?thesis using d assms uint_byte_range [of "buf ! nat off"]
      by (auto simp add: mem_read_byte_def Let_def rbind_def bytearray_get_in_range
          intro!: exI [of _ m1])
  qed
qed



lemma region_buf_io [simp]: "region_buf (m\<lparr>mem_io_regs := io\<rparr>) Io_regs = Inr io"
  by (simp add: region_buf_def)









lemma array_get_in_range:
  "0 \<le> i \<Longrightarrow> i < len a \<Longrightarrow> array_get a i = Inr (a ! nat i)"
  by (simp add: array_get_def py_index_def rbind_def)

lemma array_set_in_range:
  "0 \<le> i \<Longrightarrow> i < len a \<Longrightarrow> 0 \<le> v \<Longrightarrow> v < 2 ^ 32 \<Longrightarrow>
   array_set a i v = Inr (a[nat i := v])"
  by (simp add: array_set_def py_index_def rbind_def)

lemma mask32_range: "0 \<le> (v::int) AND 0xFFFFFFFF \<and> v AND 0xFFFFFFFF < 2 ^ 32"
proof -
  have "v AND 0xFFFFFFFF \<le> 0xFFFFFFFF" by (rule AND_upper2) simp
  then show ?thesis by simp
qed

section \<open>Slices and the second draft of the memory manager\<close>

lemma slice_bound_in [simp]: "0 \<le> i \<Longrightarrow> i \<le> len xs \<Longrightarrow> slice_bound xs i = nat i"
  by (simp add: slice_bound_def)

lemma slice_bound_0 [simp]: "slice_bound xs 0 = 0"
  by (simp add: slice_bound_def len_def)

lemma slice_bound_len [simp]: "slice_bound xs (len xs) = length xs"
  by (simp add: slice_bound_def len_def)

lemma length_to_bytes_le [simp]: "length (to_bytes_le n v) = n"
  by (induction n arbitrary: v) simp_all

lemma from_to_bytes: "0 \<le> v \<Longrightarrow> v < 256 ^ n \<Longrightarrow> from_bytes (to_bytes_le n v) = v"
proof (induction n arbitrary: v)
  case 0
  then show ?case by simp
next
  case (Suc n)
  have d: "0 \<le> v div 256" "v div 256 < 256 ^ n"
    using Suc.prems by (simp_all add: div_less_iff_less_mult mult.commute)
  have u: "uint (word_of_int v :: byte) = v mod 256"
    by (simp add: uint_word_of_int_eq take_bit_eq_mod)
  show ?case using Suc.IH [OF d] by (simp add: u)
qed

lemma slice_roundtrip:
  assumes "0 \<le> off" "off + int (length bs) \<le> len mem"
  shows "py_slice (py_slice_assign mem off (off + int (length bs)) bs) off (off + int (length bs)) = bs"
proof -
  let ?xs = "take (nat off) mem @ bs @ drop (nat off + length bs) mem"
  have a: "py_slice_assign mem off (off + int (length bs)) bs = ?xs"
    using assms by (simp add: py_slice_assign_def slice_bound_def len_def nat_add_distrib max_def)
  have l: "len ?xs = len mem" using assms by (simp add: len_def)
  have "py_slice ?xs off (off + int (length bs)) = take (length bs) (drop (nat off) ?xs)"
    using assms l by (simp add: py_slice_def slice_bound_def nat_add_distrib)
  also have "\<dots> = bs" using assms by (simp add: len_def)
  finally show ?thesis unfolding a .
qed

lemma len_slice_assign:
  assumes "0 \<le> off" "off + int (length bs) \<le> len mem"
  shows "len (py_slice_assign mem off (off + int (length bs)) bs) = len mem"
  using assms by (simp add: py_slice_assign_def slice_bound_def len_def nat_add_distrib max_def)

lemma write_read_in_range:
  assumes m: "map_address2 s a = ((r, off), s)"
    and w: "r \<noteq> Invalid" "r \<noteq> Rom" "r \<noteq> Bios"
    and mem: "getattr s r = Inr mem" "off + int sz \<le> len mem"
    and v: "0 \<le> v" "v < 256 ^ sz"
  shows "\<exists>s1. write_mm s a v sz = Inr s1 \<and> read_mm s1 a sz = Inr (v, s1)"
proof -
  have off: "0 \<le> off" using m by (auto simp add: map_address2_def split: if_splits)
  let ?bs = "to_bytes_le sz v"
  let ?mem' = "py_slice_assign mem off (off + int sz) ?bs"
  let ?s1 = "setattr s r ?mem'"
  have W: "write_mm s a v sz = Inr ?s1"
    using m w mem v by (simp add: write_mm_def rbind_def to_bytes_def)
  have rom: "rom ?s1 = rom s" using w by (cases r) (simp_all add: setattr_def)
  have m1: "map_address2 ?s1 a = ((r, off), ?s1)"
    using m w rom by (auto simp add: map_address2_def split: if_splits)
  have g1: "getattr ?s1 r = Inr ?mem'" using w by (cases r) (simp_all add: setattr_def getattr_def)
  have l: "len ?mem' = len mem" using len_slice_assign [of off ?bs mem] off mem(2) by simp
  have rt: "py_slice ?mem' off (off + int sz) = ?bs"
    using slice_roundtrip [of off ?bs mem] off mem(2) by simp
  have R: "read_mm ?s1 a sz = Inr (v, ?s1)"
    using m1 w g1 l mem(2) by (simp add: read_mm_def rbind_def rt from_to_bytes [OF v])
  show ?thesis using W R by blast
qed




lemma warnings_setattr [simp]: "warnings (setattr s r mem) = warnings s"
  by (cases r) (simp_all add: setattr_def)


section \<open>Misaligned word reads\<close>
lemma and3: "(a::int) AND 3 = a mod 4"
proof -
  have "a AND mask 2 = a mod 2 ^ 2" by (simp only: take_bit_eq_mask [symmetric] take_bit_eq_mod)
  then show ?thesis by (simp add: mask_eq_exp_minus_1)
qed

lemma high_bits_zero:
  assumes "0 \<le> (v::int)" "v < 2 ^ 32" "32 \<le> k"
  shows "\<not> bit v k"
proof -
  have "take_bit 32 v = v" using assms by (simp add: take_bit_int_eq_self)
  then have "bit v k = bit (take_bit 32 v) k" by simp
  also have "\<dots> = False" using assms(3) by (simp add: bit_take_bit_iff)
  finally show ?thesis by simp
qed

lemma rot_eq:
  assumes "0 \<le> (v::int)" "v < 2 ^ 32" "r \<le> 32"
  shows "(drop_bit r v OR push_bit (32 - r) v) AND 0xFFFFFFFF = ror32 v r"
proof -
  have m: "(0xFFFFFFFF::int) = mask 32" by (simp add: mask_eq_exp_minus_1)
  note hz = high_bits_zero [OF assms(1,2)]
  show ?thesis unfolding m ror32_def
  proof (rule bit_eqI)
    fix n
    let ?L = "bit ((drop_bit r v OR push_bit (32 - r) v) AND mask 32) n"
    let ?R = "bit (uint (word_rotr r (word_of_int v :: 32 word))) n"
    have L: "?L \<longleftrightarrow> n < 32 \<and> (bit v (r + n) \<or> (32 - r \<le> n \<and> bit v (n - (32 - r))))"
      by (auto simp add: bit_and_iff bit_or_iff bit_drop_bit_eq bit_push_bit_iff bit_mask_iff)
    have R: "?R \<longleftrightarrow> n < 32 \<and> bit v ((n + r) mod 32)"
      by (auto simp add: bit_uint_iff bit_word_rotr_iff bit_word_of_int_iff)
    consider "32 \<le> n" | "n < 32" "n + r < 32" | "n < 32" "32 \<le> n + r" by linarith
    then show "?L = ?R"
    proof cases
      case 1
      then show ?thesis unfolding L R by simp
    next
      case 2
      then have "(n + r) mod 32 = r + n" "\<not> 32 - r \<le> n" by simp_all
      then show ?thesis unfolding L R by (simp add: add.commute)
    next
      case 3
      then have a: "(n + r) mod 32 = n - (32 - r)" using assms(3) by (simp add: mod_if)
      have b: "\<not> bit v (r + n)" using hz [of "r + n"] 3 by (simp add: add.commute)
      have c: "32 - r \<le> n" using 3 by simp
      show ?thesis unfolding L R a using b c by simp
    qed
  qed
qed






lemma mask32_nonneg: "0 \<le> (a::int) AND 0xFFFFFFFF"
  by simp

lemma read_byte_eq:
  "read_byte s a = Inr (byte_value s a, after_read s a (byte_warnings s a))"
  using mask32_nonneg [of a]
  by (simp add: read_byte_def map_address_def byte_value_def byte_warnings_def after_read_def
      getattr_def warn_def rbind_def bytearray_get_def py_index_def Let_def)

lemma byte_value_after_read [simp]: "byte_value (after_read s b ws) a = byte_value s a"
  by (simp add: byte_value_def map_address_def after_read_def getattr_def Let_def)

lemma byte_warnings_after_read [simp]: "byte_warnings (after_read s b ws) a = byte_warnings s a"
  by (simp add: byte_warnings_def map_address_def after_read_def getattr_def Let_def)

lemma after_read_after_read [simp]:
  "after_read (after_read s a ws) b ws' = after_read s b (ws @ ws')"
  by (simp add: after_read_def)

lemma byte_value_range: "0 \<le> byte_value s a \<and> byte_value s a < 256"
proof -
  have "\<And>w::byte. uint w < 256" using uint_bounded [where 'a = 8] by simp
  moreover have "drop_bit 24 a AND 0xFF < 256" 
    by (rule le_less_trans [OF AND_upper2]) simp_all
  ultimately show ?thesis
  by (simp add: byte_value_def map_address_def getattr_def Let_def)
qed





lemma push_byte_bound:
  assumes "0 \<le> (b::int)" "b < 256" "k \<le> 24"
  shows "0 \<le> push_bit k b \<and> push_bit k b < 2 ^ 32"
proof -
  have e: "push_bit k b = b * 2 ^ k" by (simp add: push_bit_eq_mult)
  have "b * 2 ^ k < 2 ^ 8 * 2 ^ k" using assms by simp
  also have "(2::int) ^ 8 * 2 ^ k = 2 ^ (8 + k)" by (simp only: power_add)
  also have "\<dots> \<le> 2 ^ 32" using assms(3) by (intro power_increasing) simp_all
  finally have "b * 2 ^ k < 2 ^ 32" .
  then show ?thesis using assms(1) unfolding e by simp
qed

lemma or_bound32:
  assumes "0 \<le> (x::int) \<and> x < 2 ^ 32" "0 \<le> (y::int) \<and> y < 2 ^ 32"
  shows "0 \<le> x OR y \<and> x OR y < 2 ^ 32"
proof
  show "0 \<le> x OR y" using assms by simp
  show "x OR y < 2 ^ 32" using assms by (intro OR_upper) simp_all
qed

lemma word_value_range: "0 \<le> word_value s b \<and> word_value s b < 2 ^ 32"
proof -
  have b0: "0 \<le> byte_value s b \<and> byte_value s b < 2 ^ 32"
    using byte_value_range [of s b] by simp
  have b1: "0 \<le> push_bit 8 (byte_value s (b + 1)) \<and> push_bit 8 (byte_value s (b + 1)) < 2 ^ 32"
    using byte_value_range [of s "b + 1"] by (intro push_byte_bound) simp_all
  have b2: "0 \<le> push_bit 16 (byte_value s (b + 2)) \<and> push_bit 16 (byte_value s (b + 2)) < 2 ^ 32"
    using byte_value_range [of s "b + 2"] by (intro push_byte_bound) simp_all
  have b3: "0 \<le> push_bit 24 (byte_value s (b + 3)) \<and> push_bit 24 (byte_value s (b + 3)) < 2 ^ 32"
    using byte_value_range [of s "b + 3"] by (intro push_byte_bound) simp_all
  show ?thesis unfolding word_value_def
    by (intro or_bound32 b0 b1 b2 b3)
qed

lemma upd_last_read: "s\<lparr>last_read_addr := a\<rparr> = after_read s a []"
  by (simp add: after_read_def)

lemma warn_after_read: "warn w (after_read s a ws) = after_read s a (ws @ [w])"
  by (simp add: after_read_def warn_def)

lemma read_word_aligned:
  assumes "a AND 3 = 0"
  shows "read_word s a = Inr (word_value s a, after_read s (a + 3) (word_warnings s a))"
  using assms
  by (simp add: read_word_def read_byte_eq rbind_def Let_def word_value_def word_warnings_def
      upd_last_read or.commute or.left_commute)

lemma read_word_unaligned:
  assumes "a AND 3 \<noteq> 0"
  shows "read_word s a =
     Inr (ror32 (word_value s (a AND NOT 3)) (nat ((a AND 3) * 8)),
          after_read s ((a AND NOT 3) + 3) (UnalignedWordRead a # word_warnings s (a AND NOT 3)))"
proof -
  have r: "0 \<le> a AND 3 \<and> a AND 3 \<le> 3" 
    by (simp add: AND_upper2)
  then have le: "nat ((a AND 3) * 8) \<le> 32" by linarith
  have sub: "nat (32 - (a AND 3) * 8) = 32 - nat ((a AND 3) * 8)" using r by linarith
  note rot = rot_eq [OF conjunct1 [OF word_value_range] conjunct2 [OF word_value_range] le, symmetric]
  have neg: "\<not> (a AND 3) * 8 < 0" "\<not> 32 - (a AND 3) * 8 < 0" using r by linarith+
  show ?thesis using assms neg
    by (simp add: read_word_def read_byte_eq rbind_def Let_def upd_last_read warn_after_read
        py_rshift_def py_lshift_def sub rot word_warnings_def)
      (simp add: word_value_def)
qed


text \<open>
  C1 (amended). For every address \<open>a\<close> with \<open>a % 4 \<noteq> 0\<close> and every state, \<open>read_word\<close> of
  the memory manager of 0.py returns the word that the aligned read at \<open>a & ~3\<close> returns,
  rotated right by \<open>(a % 4) * 8\<close> bits; it leaves the state of that aligned read with the
  warning "Unaligned word read" recorded before the warnings of the four byte reads, and
  it does not raise. \<open>Memory.read_word\<close> of flamesgbav2.py masks the address and returns
  the aligned word as it is, without a rotation; it has no warning list, leaves every
  byte of memory as it was, and does not raise either.
\<close>

theorem misaligned_word_read:
  assumes "a mod 4 \<noteq> 0"
  shows "(\<exists>v s1. read_word s (a AND NOT 3) = Inr (v, s1) \<and>
            read_word s a =
              Inr (ror32 v (nat ((a mod 4) * 8)),
                   s1\<lparr>warnings := warnings s @ UnalignedWordRead a #
                                    drop (length (warnings s)) (warnings s1)\<rparr>)) \<and>
         (\<exists>w m1. mem_read_word g (a AND NOT 3) = Inr (w, g\<lparr>memory := m1\<rparr>) \<and>
            mem_read_word g a = Inr (w, g\<lparr>memory := m1\<rparr>) \<and> same_memory m1 (memory g))"
proof
  have na: "a AND 3 \<noteq> 0" using assms by (simp add: and3)
  have al: "(a AND NOT 3) AND 3 = 0" using and_not3_and3 [of a] by simp
  let ?b = "a AND NOT 3"
  let ?s1 = "after_read s (?b + 3) (word_warnings s ?b)"
  have A: "read_word s ?b = Inr (word_value s ?b, ?s1)"
    by (rule read_word_aligned [OF al])
  have B: "read_word s a =
      Inr (ror32 (word_value s ?b) (nat ((a mod 4) * 8)),
           after_read s (?b + 3) (UnalignedWordRead a # word_warnings s ?b))"
    using read_word_unaligned [OF na] by (simp add: and3)
  have C: "after_read s (?b + 3) (UnalignedWordRead a # word_warnings s ?b) =
      ?s1\<lparr>warnings := warnings s @ UnalignedWordRead a #
                         drop (length (warnings s)) (warnings ?s1)\<rparr>"
    by (simp add: after_read_def)
  show "\<exists>v s1. read_word s ?b = Inr (v, s1) \<and>
          read_word s a =
            Inr (ror32 v (nat ((a mod 4) * 8)),
                 s1\<lparr>warnings := warnings s @ UnalignedWordRead a #
                                  drop (length (warnings s)) (warnings s1)\<rparr>)"
    using A B C by (intro exI [of _ "word_value s ?b"] exI [of _ ?s1]) simp
next
  obtain w m1 where D: "mem_read_word g (a AND NOT 3) = Inr (w, g\<lparr>memory := m1\<rparr>)"
      "same_memory m1 (memory g)"
    using mem_read_word_total [of g "a AND NOT 3"] by blast
  then show "\<exists>w m1. mem_read_word g (a AND NOT 3) = Inr (w, g\<lparr>memory := m1\<rparr>) \<and>
      mem_read_word g a = Inr (w, g\<lparr>memory := m1\<rparr>) \<and> same_memory m1 (memory g)"
    using mem_read_word_masks [of g a] by auto
qed

lemma read_word_example_aligned:
  "read_word memory_manager1_example 0x02000000 =
     Inr (0x44332211, memory_manager1_example\<lparr>last_read_addr := 0x02000003\<rparr>)"
  by (simp add: read_word_def read_byte_def map_address_def memory_manager1_example_def
      memory_manager1_init_def getattr_def rbind_def bytearray_get_def py_index_def len_def
      Let_def)

lemma mem_read_word_example:
  "mem_read_word gba_example 0x02000000 = Inr (0x44332211, gba_example)"
  by (simp add: mem_read_word_def gba_example_def gba_init_def memory_init_def
      get_memory_region_and_offset_def Let_def region_buf_def rbind_def bytearray_get_def
      py_index_def len_def)

lemma ror32_example: "ror32 0x44332211 8 = 0x11443322"
  by (simp add: rot_eq [symmetric])

theorem misaligned_word_read_witness:
  "(0x02000001 :: int) mod 4 \<noteq> 0 \<and>
   read_word memory_manager1_example 0x02000001 =
     Inr (0x11443322,
          memory_manager1_example\<lparr>warnings := [UnalignedWordRead 0x02000001],
                                    last_read_addr := 0x02000003\<rparr>) \<and>
   mem_read_word gba_example 0x02000001 = Inr (0x44332211, gba_example)"
proof -
  have h: "(0x02000001 :: int) mod 4 \<noteq> 0" by simp
  have e: "(0x02000001 :: int) AND NOT 3 = 0x02000000" by simp
  have w0: "warnings memory_manager1_example = []"
    by (simp add: memory_manager1_example_def memory_manager1_init_def)
  from misaligned_word_read [OF h, of memory_manager1_example gba_example]
  obtain v s1 w m1 where
    A: "read_word memory_manager1_example 0x02000000 = Inr (v, s1)" and
    B: "read_word memory_manager1_example 0x02000001 =
          Inr (ror32 v (nat ((0x02000001 mod 4) * 8)),
               s1\<lparr>warnings := warnings memory_manager1_example @ UnalignedWordRead 0x02000001 #
                     drop (length (warnings memory_manager1_example)) (warnings s1)\<rparr>)" and
    C: "mem_read_word gba_example 0x02000000 = Inr (w, gba_example\<lparr>memory := m1\<rparr>)" and
    D: "mem_read_word gba_example 0x02000001 = Inr (w, gba_example\<lparr>memory := m1\<rparr>)"
    unfolding e by blast
  from A read_word_example_aligned
  have v: "v = 0x44332211" "s1 = memory_manager1_example\<lparr>last_read_addr := 0x02000003\<rparr>"
    by simp_all
  from C D mem_read_word_example
  have g: "mem_read_word gba_example 0x02000001 = Inr (0x44332211, gba_example)" by simp
  show ?thesis using h B g unfolding v by (simp add: w0 ror32_example)
qed

theorem misaligned_word_read_counterexample:
  "(0x02000001 :: int) mod 4 \<noteq> 0 \<and>
   mem_read_word gba_example (0x02000001 AND NOT 3) = Inr (0x44332211, gba_example) \<and>
   mem_read_word gba_example 0x02000001 = Inr (0x44332211, gba_example) \<and>
   ror32 0x44332211 (nat ((0x02000001 mod 4) * 8)) = 0x11443322"
  by (simp add: mem_read_word_def gba_example_def gba_init_def memory_init_def
      get_memory_region_and_offset_def Let_def region_buf_def rbind_def bytearray_get_def
      py_index_def len_def rot_eq [symmetric])

section \<open>Register banking\<close>

lemma bank_lenD: "bank_len c m n \<Longrightarrow> \<exists>b. R_banked c m = Some b \<and> length b = n"
  by (auto simp add: bank_len_def split: option.splits)

text \<open>
  C4. In a processor whose current mode \<open>m1\<close> is privileged, \<open>set_reg\<close> of R13 stores the
  value where \<open>get_reg(13)\<close> finds it in that mode, and leaves the value that
  \<open>get_reg(13)\<close> returns under any other privileged mode \<open>m2\<close> as it was. The two modes
  are arbitrary, so the law holds in both directions. The modes are given by the mode
  bits of the status register: \<open>CPSR c\<close> for \<open>m1\<close>, \<open>cpsr2\<close> for \<open>m2\<close>.
\<close>

theorem register_banking_R13:
  assumes ok: "cpu_ok c"
    and m1: "CPSR c AND 0x1F \<in> set privileged_modes"
    and m2: "cpsr2 AND 0x1F \<in> set privileged_modes"
    and ne: "CPSR c AND 0x1F \<noteq> cpsr2 AND 0x1F"
  shows "\<exists>c' x. set_reg c 13 v = Inr c' \<and>
           get_reg c' 13 = Inr (v AND 0xFFFFFFFF) \<and>
           get_reg (c\<lparr>CPSR := cpsr2\<rparr>) 13 = Inr x \<and>
           get_reg (c'\<lparr>CPSR := cpsr2\<rparr>) 13 = Inr x"
proof -
  note r = mask32_range [of v]
  from ok obtain bf bi bs ba bu where
    b: "length (R c) = 16"
      "R_banked c MODE_FIQ = Some bf" "length bf = 7"
      "R_banked c MODE_IRQ = Some bi" "length bi = 2"
      "R_banked c MODE_SUPERVISOR = Some bs" "length bs = 2"
      "R_banked c MODE_ABORT = Some ba" "length ba = 2"
      "R_banked c MODE_UNDEFINED = Some bu" "length bu = 2"
    unfolding cpu_ok_def by (auto dest!: bank_lenD)
  show ?thesis
    using m1 m2 ne b r
    by (auto simp add: privileged_modes_def set_reg_def get_reg_def set_bank_def set_R_def
        banked_modes_def dict_get_def rbind_def Let_def array_get_in_range array_set_in_range len_def)
qed

theorem register_banking_R13_witness:
  "cpu_ok (arm7tdmi_init\<lparr>CPSR := 0xD3\<rparr>) \<and>
   CPSR (arm7tdmi_init\<lparr>CPSR := 0xD3\<rparr>) AND 0x1F \<in> set privileged_modes \<and>
   (0xD2 :: int) AND 0x1F \<in> set privileged_modes \<and>
   CPSR (arm7tdmi_init\<lparr>CPSR := 0xD3\<rparr>) AND 0x1F \<noteq> 0xD2 AND 0x1F \<and>
   (\<exists>c'. set_reg (arm7tdmi_init\<lparr>CPSR := 0xD3\<rparr>) 13 0x1234 = Inr c' \<and>
      get_reg c' 13 = Inr 0x1234 \<and>
      get_reg (arm7tdmi_init\<lparr>CPSR := 0xD2\<rparr>) 13 = Inr 0 \<and>
      get_reg (c'\<lparr>CPSR := 0xD2\<rparr>) 13 = Inr 0)"
proof -
  let ?c = "arm7tdmi_init\<lparr>CPSR := 0xD3\<rparr>"
  have ok: "cpu_ok ?c"
    by (simp add: cpu_ok_def bank_len_def arm7tdmi_init_def set_thumb_mode_def)
  have m1: "CPSR ?c AND 0x1F \<in> set privileged_modes" by (simp add: privileged_modes_def)
  have m2: "(0xD2 :: int) AND 0x1F \<in> set privileged_modes" by (simp add: privileged_modes_def)
  have ne: "CPSR ?c AND 0x1F \<noteq> 0xD2 AND 0x1F" by simp
  from register_banking_R13 [OF ok m1 m2 ne, of "0x1234"]
  obtain c' x where
    A: "set_reg ?c 13 0x1234 = Inr c'" "get_reg c' 13 = Inr (0x1234 AND 0xFFFFFFFF)"
      "get_reg (?c\<lparr>CPSR := 0xD2\<rparr>) 13 = Inr x" "get_reg (c'\<lparr>CPSR := 0xD2\<rparr>) 13 = Inr x"
    by blast
  have x: "get_reg (arm7tdmi_init\<lparr>CPSR := 0xD2\<rparr>) 13 = Inr 0"
    by (simp add: get_reg_def arm7tdmi_init_def set_thumb_mode_def banked_modes_def
        dict_get_def rbind_def array_get_def py_index_def len_def Let_def)
  from A(3) x have "x = 0" by simp
  with A x ok m1 m2 ne show ?thesis by simp
qed


section \<open>A failed condition\<close>

lemma check_cond_cpsr: "CPSR c1 = CPSR c2 \<Longrightarrow> check_cond c1 cond = check_cond c2 cond"
  by (simp add: check_cond_def get_flag_N_def get_flag_Z_def get_flag_C_def get_flag_V_def)

text \<open>
  C5. In ARM state, when the condition field of the fetched opcode fails against the
  flags, \<open>step\<close> returns and its whole effect is: R15 holds the old program counter plus
  4, in 32 bits, and the cycle counter is one higher. R0 to R14, the register banks,
  CPSR and the SPSRs are as before, as are the PPU, the keypad and every byte of memory
  (the fetch may create one of the two lazily allocated buffers, which reads as the
  zeros it would have read as before).
\<close>

theorem failed_condition_step:
  assumes len: "length (R (cpu s)) = 16"
    and arm: "get_flag_T (cpu s) = 0"
    and fetch: "mem_read_word s (R (cpu s) ! 15) = Inr (opcode, s1)"
    and cond: "\<not> check_cond (cpu s) (drop_bit 28 opcode AND 0xF)"
  shows "step s =
           Inr (s1\<lparr>cpu := (cpu s)\<lparr>R := (R (cpu s))[15 := (R (cpu s) ! 15 + 4) AND 0xFFFFFFFF],
                                   cycles := cycles (cpu s) + 1\<rparr>\<rparr>) \<and>
         cpu s1 = cpu s \<and> ppu s1 = ppu s \<and> keypad s1 = keypad s \<and>
         same_memory (memory s1) (memory s)"
proof -
  let ?pc = "R (cpu s) ! 15"
  obtain v m1 where t: "mem_read_word s ?pc = Inr (v, s\<lparr>memory := m1\<rparr>)" "same_memory m1 (memory s)"
    using mem_read_word_total [of s ?pc] by blast
  with fetch have s1: "s1 = s\<lparr>memory := m1\<rparr>" "opcode = v" by simp_all
  have pc: "get_pc (cpu s) = Inr ?pc"
    using len by (simp add: get_pc_def array_get_in_range len_def)
  note r = mask32_range [of "?pc + 4"]
  have sp: "on_cpu s1 (\<lambda>c. set_pc c (?pc + 4)) =
      Inr (s1\<lparr>cpu := (cpu s)\<lparr>R := (R (cpu s))[15 := (?pc + 4) AND 0xFFFFFFFF]\<rparr>\<rparr>)"
    using len r by (simp add: on_cpu_def set_pc_def set_R_def rbind_def array_set_in_range len_def s1)
  let ?s2 = "s1\<lparr>cpu := (cpu s)\<lparr>R := (R (cpu s))[15 := (?pc + 4) AND 0xFFFFFFFF]\<rparr>\<rparr>"
  have cc: "\<not> check_cond (cpu ?s2) (drop_bit 28 opcode AND 0xF)"
    using cond check_cond_cpsr [of "cpu ?s2" "cpu s"] by simp
  have ex: "execute_arm ?s2 opcode = Inr ?s2"
    using cc by (simp add: execute_arm_def Let_def)
  have "step s = Inr (?s2\<lparr>cpu := (cpu ?s2)\<lparr>cycles := cycles (cpu ?s2) + 1\<rparr>\<rparr>)"
    using arm by (simp add: step_def pc fetch sp ex rbind_def)
  then show ?thesis using t(2) by (simp add: s1)
qed

lemma fetch_example: "mem_read_word gba_at_ram 0x02000000 = Inr (0, gba_at_ram)"
  by (simp add: mem_read_word_def gba_at_ram_def gba_init_def memory_init_def
      get_memory_region_and_offset_def Let_def region_buf_def rbind_def bytearray_get_def
      py_index_def len_def)

theorem failed_condition_step_witness:
  "length (R (cpu gba_at_ram)) = 16 \<and> get_flag_T (cpu gba_at_ram) = 0 \<and>
   mem_read_word gba_at_ram (R (cpu gba_at_ram) ! 15) = Inr (0, gba_at_ram) \<and>
   \<not> check_cond (cpu gba_at_ram) (drop_bit 28 0 AND 0xF) \<and>
   step gba_at_ram =
     Inr (gba_at_ram\<lparr>cpu := (cpu gba_at_ram)\<lparr>R := (R (cpu gba_at_ram))[15 := 0x02000004],
                                              cycles := 1\<rparr>\<rparr>)"
proof -
  have c: "cpu gba_at_ram = arm7tdmi_init\<lparr>R := (R arm7tdmi_init)[15 := 0x02000000]\<rparr>"
    by (simp add: gba_at_ram_def gba_init_def)
  have i: "R arm7tdmi_init = (replicate 16 0)[15 := 0]" "CPSR arm7tdmi_init = 0xDF"
    "cycles arm7tdmi_init = 0"
    by (simp_all add: arm7tdmi_init_def set_thumb_mode_def)
  have l: "length (R (cpu gba_at_ram)) = 16" by (simp add: c i)
  have pc: "R (cpu gba_at_ram) ! 15 = 0x02000000" by (simp add: c i)
  have t: "get_flag_T (cpu gba_at_ram) = 0" by (simp add: c i get_flag_T_def)
  have f: "mem_read_word gba_at_ram (R (cpu gba_at_ram) ! 15) = Inr (0, gba_at_ram)"
    unfolding pc by (rule fetch_example)
  have n: "\<not> check_cond (cpu gba_at_ram) (drop_bit 28 0 AND 0xF)"
    by (simp add: c i check_cond_def get_flag_Z_def)
  from failed_condition_step [OF l t f n]
  have "step gba_at_ram =
     Inr (gba_at_ram\<lparr>cpu := (cpu gba_at_ram)\<lparr>R := (R (cpu gba_at_ram))[15 := (R (cpu gba_at_ram) ! 15 + 4) AND 0xFFFFFFFF],
                                              cycles := cycles (cpu gba_at_ram) + 1\<rparr>\<rparr>)"
    by blast
  also have "(R (cpu gba_at_ram) ! 15 + 4) AND 0xFFFFFFFF = 0x02000004" unfolding pc by simp
  also have "cycles (cpu gba_at_ram) + 1 = 1" by (simp add: c i)
  finally show ?thesis using l t f n by blast
qed

section \<open>The key input register\<close>

text \<open>
  C10. With the keypad connected, a byte read of the bus at 0x04000130 returns the whole
  latched button state of the keypad, not its low byte; on the emulator as constructed
  (all buttons released) it returns 0xFFFF. A byte read at any other address returns a
  value in 0..255.
\<close>

theorem keyinput_byte_read:
  "(mem_keypad (memory s) \<longrightarrow> mem_read_byte s 0x04000130 = Inr (key_state (keypad s), s)) \<and>
   mem_read_byte gba_init 0x04000130 = Inr (0xFFFF, gba_init) \<and>
   (a \<noteq> 0x04000130 \<longrightarrow>
      (\<exists>v m1. mem_read_byte s a = Inr (v, s\<lparr>memory := m1\<rparr>) \<and> 0 \<le> v \<and> v \<le> 255))"
proof (intro conjI impI)
  show "mem_keypad (memory s) \<Longrightarrow> mem_read_byte s 0x04000130 = Inr (key_state (keypad s), s)"
    by (simp add: mem_read_byte_keyinput)
  show "mem_read_byte gba_init 0x04000130 = Inr (0xFFFF, gba_init)"
    by (simp add: mem_read_byte_keyinput) (simp add: gba_init_def keypad_init_def)
  show "a \<noteq> 0x04000130 \<Longrightarrow>
      \<exists>v m1. mem_read_byte s a = Inr (v, s\<lparr>memory := m1\<rparr>) \<and> 0 \<le> v \<and> v \<le> 255"
    using mem_read_byte_other [of a s] by blast
qed

theorem keyinput_byte_read_witness:
  "mem_keypad (memory gba_init) \<and>
   mem_read_byte gba_init 0x04000130 = Inr (0xFFFF, gba_init) \<and>
   (0x04000131 :: int) \<noteq> 0x04000130 \<and>
   (\<exists>v m1. mem_read_byte gba_init 0x04000131 = Inr (v, gba_init\<lparr>memory := m1\<rparr>) \<and>
      0 \<le> v \<and> v \<le> 255)"
proof -
  have k: "mem_keypad (memory gba_init)" by (simp add: gba_init_def)
  have n: "(0x04000131 :: int) \<noteq> 0x04000130" by simp
  note t = keyinput_byte_read [of gba_init "0x04000131"]
  have B: "mem_read_byte gba_init 0x04000130 = Inr (0xFFFF, gba_init)" using t by blast
  have C: "\<exists>v m1. mem_read_byte gba_init 0x04000131 = Inr (v, gba_init\<lparr>memory := m1\<rparr>) \<and>
      0 \<le> v \<and> v \<le> 255"
    using t n by blast
  show ?thesis using k n B C by blast
qed


section \<open>Pressing a button\<close>

lemma lower_z: "lower ''z'' = ''z''"
  by (simp add: lower_def lower_char_def)

lemma key_map_z: "key_map ''z'' = Some 0"
  by (simp add: key_map_def)

lemma key_down_z:
  assumes "len (mem_io_regs (memory s)) = IO_REG_SIZE"
  shows "key_down s ''z'' =
     Inr (s\<lparr>keypad := (keypad s)\<lparr>key_state := key_state (keypad s) AND NOT 1\<rparr>,
            memory := (memory s)\<lparr>mem_io_regs :=
              (mem_io_regs (memory s))
                [0x130 := word_of_int ((key_state (keypad s) AND NOT 1) AND 0xFF),
                 0x131 := word_of_int (drop_bit 8 (key_state (keypad s) AND NOT 1) AND 0xFF)]\<rparr>\<rparr>)"
  using assms and_ff_range [of "key_state (keypad s) AND NOT 1"]
    and_ff_range [of "drop_bit 8 (key_state (keypad s) AND NOT 1)"]
  by (simp add: key_down_def lower_z key_map_z Let_def update_keyinput_reg_def rbind_def
      bytearray_set_in_range)

text \<open>
  C8. With the keypad connected, after \<open>key_down\<close> of the key of button A (\<open>z\<close> in the key
  map, bit 0) a read of the input register at 0x04000130 observes bit 0 cleared and every
  other bit as it was before the press, thus set for every button that is not held; from
  the all-released state the register reads 0xFFFE. The byte read returns the latched
  state, the halfword read the two register bytes, and both agree.
\<close>

theorem press_button_A:
  assumes "len (mem_io_regs (memory s)) = IO_REG_SIZE" and "mem_keypad (memory s)"
  shows "\<exists>s1 r. key_down s ''z'' = Inr s1 \<and>
           mem_read_byte s1 0x04000130 = Inr (r, s1) \<and>
           mem_read_halfword s1 0x04000130 = Inr (r AND 0xFFFF, s1) \<and>
           \<not> bit r 0 \<and> (\<forall>i. 0 < i \<longrightarrow> bit r i = bit (key_state (keypad s)) i) \<and>
           (key_state (keypad s) = 0xFFFF \<longrightarrow> r = 0xFFFE)"
proof -
  let ?r = "key_state (keypad s) AND NOT 1"
  let ?s1 = "s\<lparr>keypad := (keypad s)\<lparr>key_state := ?r\<rparr>,
            memory := (memory s)\<lparr>mem_io_regs :=
              (mem_io_regs (memory s))
                [0x130 := word_of_int (?r AND 0xFF),
                 0x131 := word_of_int (drop_bit 8 ?r AND 0xFF)]\<rparr>\<rparr>"
  have k: "key_down s ''z'' = Inr ?s1" by (rule key_down_z [OF assms(1)])
  have b: "mem_read_byte ?s1 0x04000130 = Inr (?r, ?s1)"
    using assms(2) by (simp add: mem_read_byte_keyinput)
  have l: "length (mem_io_regs (memory s)) = 1024" using assms(1) by (simp add: len_def)
  define w0 :: byte where "w0 = word_of_int (?r AND 0xFF)"
  define w1 :: byte where "w1 = word_of_int (drop_bit 8 ?r AND 0xFF)"
  define s1 where "s1 = s\<lparr>keypad := (keypad s)\<lparr>key_state := ?r\<rparr>,
            memory := (memory s)\<lparr>mem_io_regs := (mem_io_regs (memory s))[0x130 := w0, 0x131 := w1]\<rparr>\<rparr>"
  have s1: "?s1 = s1" by (simp add: s1_def w0_def w1_def)
  have "mem_read_halfword s1 0x04000130 = Inr (uint w0 OR push_bit 8 (uint w1), s1)"
    using l
    by (simp add: s1_def mem_read_halfword_def get_memory_region_and_offset_def Let_def
        region_buf_def rbind_def bytearray_get_def py_index_def len_def)
  also have "uint w0 OR push_bit 8 (uint w1) = ?r AND 0xFFFF"
    unfolding w0_def w1_def byte_of_and by (rule halves)
  finally have h: "mem_read_halfword ?s1 0x04000130 = Inr (?r AND 0xFFFF, ?s1)"
    unfolding s1 .
  have b0: "\<not> bit ?r 0" by (simp add: bit_and_iff bit_not_iff)
  have bi: "\<And>i. 0 < i \<Longrightarrow> bit ?r i = bit (key_state (keypad s)) i"
    by (auto simp add: bit_and_iff bit_not_iff bit_1_iff)
  have f: "key_state (keypad s) = 0xFFFF \<Longrightarrow> ?r = 0xFFFE" by simp
  show ?thesis using k b h b0 bi f by blast
qed

theorem press_button_A_witness:
  "len (mem_io_regs (memory gba_init)) = IO_REG_SIZE \<and> mem_keypad (memory gba_init) \<and>
   (\<exists>s1. key_down gba_init ''z'' = Inr s1 \<and>
      mem_read_byte s1 0x04000130 = Inr (0xFFFE, s1) \<and>
      mem_read_halfword s1 0x04000130 = Inr (0xFFFE, s1))"
proof -
  have l: "len (mem_io_regs (memory gba_init)) = IO_REG_SIZE"
    by (simp add: gba_init_def memory_init_def len_def)
  have k: "mem_keypad (memory gba_init)" by (simp add: gba_init_def)
  have ks: "key_state (keypad gba_init) = 0xFFFF" by (simp add: gba_init_def keypad_init_def)
  from press_button_A [OF l k] ks
  obtain s1 r where A: "key_down gba_init ''z'' = Inr s1"
    "mem_read_byte s1 0x04000130 = Inr (r, s1)"
    "mem_read_halfword s1 0x04000130 = Inr (r AND 0xFFFF, s1)" "r = 0xFFFE"
    by blast
  then show ?thesis using l k by simp
qed


section \<open>Loading a boot image\<close>

text \<open>
  C6 (amended). \<open>MemoryManager.load_bios\<close> of 0.py, given an image longer than the boot
  region, stores the prefix of the image that fills the region and records the warning
  "BIOS data too large"; given a shorter image it overwrites the start of the region and
  records nothing; it keeps the length of the region and, being a total function of
  slices, fails for no input. \<open>Memory.load_bios\<close> of flamesgbav2.py refuses an image longer
  than \<open>BIOS_SIZE\<close> with \<open>ValueError\<close> and copies a shorter one over the start of the region.
\<close>

theorem boot_image_load:
  "(len data > len (bios s) \<longrightarrow>
      load_bios s data =
        s\<lparr>bios := take (length (bios s)) data,
           warnings := warnings s @ [BiosTooLarge (len data)]\<rparr>) \<and>
   (len data \<le> len (bios s) \<longrightarrow>
      load_bios s data = s\<lparr>bios := data @ drop (length data) (bios s)\<rparr>) \<and>
   length (bios (load_bios s data)) = length (bios s) \<and>
   (len data > BIOS_SIZE \<longrightarrow> mem_load_bios m data = Inl ValueError) \<and>
   (len data \<le> BIOS_SIZE \<longrightarrow>
      mem_load_bios m data = Inr (m\<lparr>mem_bios := data @ drop (length data) (mem_bios m)\<rparr>))"
proof (intro conjI impI)
  assume "len data > len (bios s)"
  then show "load_bios s data =
        s\<lparr>bios := take (length (bios s)) data,
           warnings := warnings s @ [BiosTooLarge (len data)]\<rparr>"
    by (simp add: load_bios_def warn_def Let_def py_slice_assign_def py_slice_def)
       (simp add: len_def slice_bound_def)
next
  assume "len data \<le> len (bios s)"
  then show "load_bios s data = s\<lparr>bios := data @ drop (length data) (bios s)\<rparr>"
    by (simp add: load_bios_def py_slice_assign_def len_def)
next
  show "length (bios (load_bios s data)) = length (bios s)"
    by (simp add: load_bios_def warn_def Let_def py_slice_assign_def py_slice_def len_def slice_bound_def)
next
  assume "len data > BIOS_SIZE"
  then show "mem_load_bios m data = Inl ValueError" by (simp add: mem_load_bios_def)
next
  assume "len data \<le> BIOS_SIZE"
  then show "mem_load_bios m data = Inr (m\<lparr>mem_bios := data @ drop (length data) (mem_bios m)\<rparr>)"
    by (simp add: mem_load_bios_def py_slice_assign_def slice_bound_def len_def min_def)
qed

theorem boot_image_load_counterexample:
  "len (replicate 0x4001 (0::byte)) > BIOS_SIZE \<and>
   mem_load_bios memory_init (replicate 0x4001 0) = Inl ValueError"
  by (simp add: mem_load_bios_def len_def)

theorem boot_image_load_witness:
  "len (replicate 0x4001 (0x55::byte)) > len (bios memory_manager1_init) \<and>
   load_bios memory_manager1_init (replicate 0x4001 0x55) =
     memory_manager1_init\<lparr>bios := replicate 0x4000 0x55,
        warnings := [BiosTooLarge 0x4001]\<rparr> \<and>
   len [0x55::byte] \<le> len (bios memory_manager1_init) \<and>
   load_bios memory_manager1_init [0x55] =
     memory_manager1_init\<lparr>bios := 0x55 # replicate 0x3FFF 0\<rparr> \<and>
   len (replicate 0x4001 (0x55::byte)) > BIOS_SIZE \<and>
   mem_load_bios memory_init (replicate 0x4001 0x55) = Inl ValueError \<and>
   len [0x55::byte] \<le> BIOS_SIZE \<and>
   mem_load_bios memory_init [0x55] = Inr (memory_init\<lparr>mem_bios := 0x55 # replicate 0x3FFF 0\<rparr>)"
proof -
  have a: "len (replicate 0x4001 (0x55::byte)) > len (bios memory_manager1_init)"
    by (simp add: len_def memory_manager1_init_def)
  have b: "len [0x55::byte] \<le> len (bios memory_manager1_init)"
    by (simp add: len_def memory_manager1_init_def)
  have c: "len (replicate 0x4001 (0x55::byte)) > BIOS_SIZE" by (simp add: len_def)
  have d: "len [0x55::byte] \<le> BIOS_SIZE" by (simp add: len_def)
  have e: "drop (Suc 0) (replicate 16384 (0::byte)) = replicate 0x3FFF 0" by simp
  note t1 = boot_image_load [where data = "replicate 0x4001 0x55" and s = memory_manager1_init and m = memory_init]
  note t2 = boot_image_load [where data = "[0x55]" and s = memory_manager1_init and m = memory_init]
  have A: "load_bios memory_manager1_init (replicate 0x4001 0x55) =
     memory_manager1_init\<lparr>bios := replicate 0x4000 0x55, warnings := [BiosTooLarge 0x4001]\<rparr>"
    using t1 a by (simp add: memory_manager1_init_def len_def)
  have B: "load_bios memory_manager1_init [0x55] =
     memory_manager1_init\<lparr>bios := 0x55 # replicate 0x3FFF 0\<rparr>"
    using t2 b by (simp add: memory_manager1_init_def e)
  have C: "mem_load_bios memory_init (replicate 0x4001 0x55) = Inl ValueError"
    using t1 c by blast
  have D: "mem_load_bios memory_init [0x55] = Inr (memory_init\<lparr>mem_bios := 0x55 # replicate 0x3FFF 0\<rparr>)"
    using t2 d by (simp add: memory_init_def e)
  show ?thesis using a b c d A B C D by blast
qed

section \<open>Writing and reading back\<close>

text \<open>
  C2 (the code at the failing input). \<open>write(0x02000000, 0x1FF, 1)\<close> of the second draft
  addresses the first byte of the work RAM, a writable region, with the whole access in
  bounds; \<open>to_bytes\<close> raises \<open>OverflowError\<close> and nothing is stored, where the claim has the
  value truncated to 0xFF and read back. For values that fit the width the round trip
  holds (lemma \<open>write_read_in_range\<close>).
\<close>

theorem write_mm_overflow:
  "write_mm memory_manager_init 0x02000000 0x1FF 1 = Inl OverflowError"
  by (simp add: write_mm_def map_address2_def getattr_def rbind_def memory_manager_init_def
      len_def to_bytes_def)

section \<open>Failure semantics of the two buses\<close>





section \<open>The renderer and the scanline clock\<close>

lemma foreach_invariant:
  assumes "I s" and "\<And>x t. x \<in> set xs \<Longrightarrow> I t \<Longrightarrow> \<exists>t'. f x t = Inr t' \<and> I t'"
  shows "\<exists>s'. foreach xs f s = Inr s' \<and> I s'"
  using assms
proof (induction xs arbitrary: s)
  case Nil
  then show ?case by simp
next
  case (Cons x xs)
  obtain t where t: "f x s = Inr t" "I t" using Cons.prems(2) [of x s] Cons.prems(1) by auto
  have "\<exists>s'. foreach xs f t = Inr s' \<and> I s'"
    using Cons.IH [OF t(2)] Cons.prems(2) by simp
  then show ?case using t by (simp add: rbind_def)
qed

lemma line_rel_refl: "line_rel y s s"
  by (simp add: line_rel_def)

lemma line_rel_trans: "line_rel y s t \<Longrightarrow> line_rel y t u \<Longrightarrow> line_rel y s u"
  by (simp add: line_rel_def)

lemma list_set_in_range:
  "0 \<le> i \<Longrightarrow> i < len xs \<Longrightarrow> list_set xs i v = Inr (xs[nat i := v])"
  by (simp add: list_set_def py_index_def rbind_def)

lemma put_pixel_ok:
  assumes "0 \<le> y * SCREEN_WIDTH + x" "y * SCREEN_WIDTH + x < len (frame_buffer (ppu s))"
  shows "put_pixel s y x colour =
     Inr (s\<lparr>ppu := (ppu s)\<lparr>frame_buffer := (frame_buffer (ppu s))[nat (y * SCREEN_WIDTH + x) := colour]\<rparr>\<rparr>)"
  using assms by (simp add: put_pixel_def list_set_in_range rbind_def)

lemma pixel_index:
  assumes "0 \<le> y" "y < SCREEN_HEIGHT" "0 \<le> x" "x < SCREEN_WIDTH"
  shows "0 \<le> y * SCREEN_WIDTH + x" "y * SCREEN_WIDTH + x < SCREEN_WIDTH * SCREEN_HEIGHT"
    "nat (y * SCREEN_WIDTH) \<le> nat (y * SCREEN_WIDTH + x)"
    "nat (y * SCREEN_WIDTH + x) < nat (y * SCREEN_WIDTH + SCREEN_WIDTH)"
  using assms by simp_all

lemma put_pixel_rel:
  assumes "0 \<le> y" "y < SCREEN_HEIGHT" "0 \<le> x" "x < SCREEN_WIDTH" "ppu_ok (ppu s)"
  shows "\<exists>s'. put_pixel s y x colour = Inr s' \<and> line_rel y s s' \<and>
           frame_buffer (ppu s') ! nat (y * SCREEN_WIDTH + x) = colour \<and>
           color_cache (ppu s') = color_cache (ppu s)"
proof -
  note p = pixel_index [OF assms(1-4)]
  have l: "len (frame_buffer (ppu s)) = SCREEN_WIDTH * SCREEN_HEIGHT"
    using assms(5) by (simp add: ppu_ok_def)
  have pp: "put_pixel s y x colour =
     Inr (s\<lparr>ppu := (ppu s)\<lparr>frame_buffer := (frame_buffer (ppu s))[nat (y * SCREEN_WIDTH + x) := colour]\<rparr>\<rparr>)"
    using p l by (intro put_pixel_ok) simp_all
  have n: "nat (y * SCREEN_WIDTH + x) < length (frame_buffer (ppu s))"
    using p l by (simp add: len_def)
  show ?thesis unfolding pp using p n
    by (auto simp add: line_rel_def cache_ok_def)
qed

lemma cached_color_ex:
  "\<exists>tk p1. cached_color p c = (tk, p1) \<and> frame_buffer p1 = frame_buffer p \<and>
     current_scanline p1 = current_scanline p \<and> cycles_scanline p1 = cycles_scanline p \<and>
     render_log p1 = render_log p \<and> (cache_ok p \<longrightarrow> cache_ok p1 \<and> tk = convert_color c)"
  by (cases "color_cache p c") (auto simp add: cached_color_def Let_def cache_ok_def)

lemma range_mem: "x \<in> set (range n) \<longleftrightarrow> 0 \<le> x \<and> x < int n"
proof
  assume "x \<in> set (range n)"
  then show "0 \<le> x \<and> x < int n" by (auto simp add: range_def)
next
  assume a: "0 \<le> x \<and> x < int n"
  then have "nat x < n" "x = int (nat x)" by (simp_all add: nat_less_iff)
  then show "x \<in> set (range n)" unfolding range_def by (metis atLeast0LessThan imageI lessThan_iff set_map set_upt)
qed

lemma put_pixel_other:
  assumes "0 \<le> y" "y < SCREEN_HEIGHT" "0 \<le> x" "x < SCREEN_WIDTH" "ppu_ok (ppu s)"
    and "put_pixel s y x colour = Inr s'" and "i \<noteq> nat (y * SCREEN_WIDTH + x)"
  shows "frame_buffer (ppu s') ! i = frame_buffer (ppu s) ! i"
proof -
  note p = pixel_index [OF assms(1-4)]
  have l: "len (frame_buffer (ppu s)) = SCREEN_WIDTH * SCREEN_HEIGHT"
    using assms(5) by (simp add: ppu_ok_def)
  have pp: "put_pixel s y x colour =
     Inr (s\<lparr>ppu := (ppu s)\<lparr>frame_buffer := (frame_buffer (ppu s))[nat (y * SCREEN_WIDTH + x) := colour]\<rparr>\<rparr>)"
    using p l by (intro put_pixel_ok) simp_all
  show ?thesis using assms(6,7) unfolding pp by auto
qed

lemma ppu_ok_line_rel: "line_rel y s t \<Longrightarrow> ppu_ok (ppu s) \<Longrightarrow> ppu_ok (ppu t)"
  by (simp add: line_rel_def ppu_ok_def len_def)

lemma mode3_pixel_rel:
  assumes y: "0 \<le> y" "y < SCREEN_HEIGHT" and x: "0 \<le> x" "x < SCREEN_WIDTH"
    and ok: "ppu_ok (ppu s)" and vl: "len (mem_vram (memory s)) = VRAM_SIZE" and vo: "0 \<le> vo"
  shows "\<exists>s'. mode3_pixel y x (vo, s) = Inr (vo + 2, s') \<and> line_rel y s s' \<and>
           (\<forall>i. i \<noteq> nat (y * SCREEN_WIDTH + x) \<longrightarrow>
                frame_buffer (ppu s') ! i = frame_buffer (ppu s) ! i) \<and>
           (cache_ok (ppu s) \<and> vo + 1 < VRAM_SIZE \<longrightarrow>
              frame_buffer (ppu s') ! nat (y * SCREEN_WIDTH + x) =
                convert_color (uint (mem_vram (memory s) ! nat vo) OR
                               push_bit 8 (uint (mem_vram (memory s) ! nat (vo + 1)))))"
proof (cases "vo + 1 < VRAM_SIZE")
  case True
  let ?c = "uint (mem_vram (memory s) ! nat vo) OR push_bit 8 (uint (mem_vram (memory s) ! nat (vo + 1)))"
  obtain tk p1 where c: "cached_color (ppu s) ?c = (tk, p1)" "frame_buffer p1 = frame_buffer (ppu s)"
    "current_scanline p1 = current_scanline (ppu s)" "cycles_scanline p1 = cycles_scanline (ppu s)"
    "render_log p1 = render_log (ppu s)" "cache_ok (ppu s) \<longrightarrow> cache_ok p1 \<and> tk = convert_color ?c"
    using cached_color_ex [of "ppu s" ?c] by blast
  let ?s1 = "s\<lparr>ppu := p1\<rparr>"
  have ok1: "ppu_ok (ppu ?s1)" using ok c(2) by (simp add: ppu_ok_def)
  obtain s' where p: "put_pixel ?s1 y x tk = Inr s'" "line_rel y ?s1 s'"
    "frame_buffer (ppu s') ! nat (y * SCREEN_WIDTH + x) = tk"
    using put_pixel_rel [OF y x ok1, of tk] by blast
  have r1: "line_rel y s ?s1" using c by (simp add: line_rel_def)
  have o: "\<forall>i. i \<noteq> nat (y * SCREEN_WIDTH + x) \<longrightarrow>
      frame_buffer (ppu s') ! i = frame_buffer (ppu s) ! i"
    using put_pixel_other [OF y x ok1 p(1)] c(2) by simp
  have m: "mode3_pixel y x (vo, s) = Inr (vo + 2, s')"
    using True vo vl c(1) p(1)
    by (simp add: mode3_pixel_def rbind_def bytearray_get_in_range)
  show ?thesis using m line_rel_trans [OF r1 p(2)] o p(3) c(6) by auto
next
  case False
  obtain s' where p: "put_pixel s y x ''#FF00FF'' = Inr s'" "line_rel y s s'"
    using put_pixel_rel [OF y x ok, of "''#FF00FF''"] by blast
  have o: "\<forall>i. i \<noteq> nat (y * SCREEN_WIDTH + x) \<longrightarrow>
      frame_buffer (ppu s') ! i = frame_buffer (ppu s) ! i"
    using put_pixel_other [OF y x ok p(1)] by simp
  have m: "mode3_pixel y x (vo, s) = Inr (vo + 2, s')"
    using False p(1) by (simp add: mode3_pixel_def rbind_def)
  show ?thesis using m p(2) o False by auto
qed

lemma mode4_pixel_rel:
  assumes y: "0 \<le> y" "y < SCREEN_HEIGHT" and x: "0 \<le> x" "x < SCREEN_WIDTH"
    and ok: "ppu_ok (ppu s)" and vl: "len (mem_vram (memory s)) = VRAM_SIZE"
    and pl: "len (mem_palette_ram (memory s)) = PALETTE_RAM_SIZE" and vb: "0 \<le> vb"
  shows "\<exists>s'. mode4_pixel y x (vb, s) = Inr (vb + 1, s') \<and> line_rel y s s'"
proof (cases "vb < VRAM_SIZE")
  case True
  let ?idx = "uint (mem_vram (memory s) ! nat vb)"
  note ir = uint_byte_range [of "mem_vram (memory s) ! nat vb"]
  let ?c = "uint (mem_palette_ram (memory s) ! nat (?idx * 2)) OR
            push_bit 8 (uint (mem_palette_ram (memory s) ! nat (?idx * 2 + 1)))"
  obtain tk p1 where c: "cached_color (ppu s) ?c = (tk, p1)" "frame_buffer p1 = frame_buffer (ppu s)"
    "current_scanline p1 = current_scanline (ppu s)" "cycles_scanline p1 = cycles_scanline (ppu s)"
    "render_log p1 = render_log (ppu s)" "cache_ok (ppu s) \<longrightarrow> cache_ok p1 \<and> tk = convert_color ?c"
    using cached_color_ex [of "ppu s" ?c] by blast
  let ?s1 = "s\<lparr>ppu := p1\<rparr>"
  have ok1: "ppu_ok (ppu ?s1)" using ok c(2) by (simp add: ppu_ok_def)
  obtain s' where p: "put_pixel ?s1 y x tk = Inr s'" "line_rel y ?s1 s'"
    using put_pixel_rel [OF y x ok1, of tk] by blast
  have r1: "line_rel y s ?s1" using c by (simp add: line_rel_def)
  have m: "mode4_pixel y x (vb, s) = Inr (vb + 1, s')"
    using True vb vl pl ir c(1) p(1)
    by (simp add: mode4_pixel_def rbind_def bytearray_get_in_range Let_def)
  show ?thesis using m line_rel_trans [OF r1 p(2)] by auto
next
  case False
  obtain s' where p: "put_pixel s y x ''#0000FF'' = Inr s'" "line_rel y s s'"
    using put_pixel_rel [OF y x ok, of "''#0000FF''"] by blast
  have m: "mode4_pixel y x (vb, s) = Inr (vb + 1, s')"
    using False p(1) by (simp add: mode4_pixel_def rbind_def)
  show ?thesis using m p(2) by auto
qed

lemma fill_line_rel:
  assumes y: "0 \<le> y" "y < SCREEN_HEIGHT" and ok: "ppu_ok (ppu s)"
  shows "\<exists>s'. fill_line s y colour = Inr s' \<and> line_rel y s s'"
proof -
  let ?I = "\<lambda>t. line_rel y s t"
  have "\<exists>s'. foreach (range (nat SCREEN_WIDTH)) (\<lambda>x s'. put_pixel s' y x colour) s = Inr s' \<and> ?I s'"
  proof (rule foreach_invariant)
    show "?I s" by (rule line_rel_refl)
  next
    fix x t
    assume xs: "x \<in> set (range (nat SCREEN_WIDTH))" and I: "?I t"
    then have x: "0 \<le> x" "x < SCREEN_WIDTH" by (simp_all add: range_mem)
    have okt: "ppu_ok (ppu t)" using ppu_ok_line_rel [OF I ok] .
    obtain t' where p: "put_pixel t y x colour = Inr t'" "line_rel y t t'"
      using put_pixel_rel [OF y x okt, of colour] by blast
    show "\<exists>t'. put_pixel t y x colour = Inr t' \<and> ?I t'"
      using p line_rel_trans [OF I p(2)] by blast
  qed
  then show ?thesis by (simp add: fill_line_def)
qed

lemma mode3_loop_rel:
  assumes y: "0 \<le> y" "y < SCREEN_HEIGHT" and ok: "ppu_ok (ppu s)"
    and vl: "len (mem_vram (memory s)) = VRAM_SIZE" and vo: "0 \<le> vo"
    and xs: "\<forall>x \<in> set xs. 0 \<le> x \<and> x < SCREEN_WIDTH"
  shows "\<exists>vo' s'. foreach xs (mode3_pixel y) (vo, s) = Inr (vo', s') \<and> line_rel y s s' \<and>
           (\<forall>i. (\<forall>x \<in> set xs. i \<noteq> nat (y * SCREEN_WIDTH + x)) \<longrightarrow>
                frame_buffer (ppu s') ! i = frame_buffer (ppu s) ! i)"
proof -
  let ?I = "\<lambda>st. case st of (v :: int, t) \<Rightarrow> 0 \<le> v \<and> line_rel y s t \<and>
      (\<forall>i. (\<forall>x \<in> set xs. i \<noteq> nat (y * SCREEN_WIDTH + x)) \<longrightarrow>
                frame_buffer (ppu t) ! i = frame_buffer (ppu s) ! i)"
  have "\<exists>st'. foreach xs (mode3_pixel y) (vo, s) = Inr st' \<and> ?I st'"
  proof (rule foreach_invariant)
    show "?I (vo, s)" using vo by (simp add: line_rel_refl)
  next
    fix x st
    assume xin: "x \<in> set xs" and I: "?I st"
    obtain v t where st: "st = (v, t)" by (cases st)
    from I st have v: "0 \<le> v" and r: "line_rel y s t"
      and k: "\<forall>i. (\<forall>x \<in> set xs. i \<noteq> nat (y * SCREEN_WIDTH + x)) \<longrightarrow>
                frame_buffer (ppu t) ! i = frame_buffer (ppu s) ! i" by auto
    have x: "0 \<le> x" "x < SCREEN_WIDTH" using xs xin by auto
    have okt: "ppu_ok (ppu t)" using ppu_ok_line_rel [OF r ok] .
    have vlt: "len (mem_vram (memory t)) = VRAM_SIZE" using r vl by (simp add: line_rel_def)
    obtain t' where p: "mode3_pixel y x (v, t) = Inr (v + 2, t')" "line_rel y t t'"
      "\<forall>i. i \<noteq> nat (y * SCREEN_WIDTH + x) \<longrightarrow> frame_buffer (ppu t') ! i = frame_buffer (ppu t) ! i"
      using mode3_pixel_rel [OF y x okt vlt v] by blast
    have "?I (v + 2, t')" using v line_rel_trans [OF r p(2)] p(3) k xin by auto
    then show "\<exists>st'. mode3_pixel y x st = Inr st' \<and> ?I st'" using p(1) st by blast
  qed
  then show ?thesis by auto
qed

lemma mode4_loop_rel:
  assumes y: "0 \<le> y" "y < SCREEN_HEIGHT" and ok: "ppu_ok (ppu s)"
    and vl: "len (mem_vram (memory s)) = VRAM_SIZE"
    and pl: "len (mem_palette_ram (memory s)) = PALETTE_RAM_SIZE" and vb: "0 \<le> vb"
  shows "\<exists>vb' s'. foreach (range (nat SCREEN_WIDTH)) (mode4_pixel y) (vb, s) = Inr (vb', s') \<and>
           line_rel y s s'"
proof -
  let ?I = "\<lambda>st. case st of (v :: int, t) \<Rightarrow> 0 \<le> v \<and> line_rel y s t"
  have "\<exists>st'. foreach (range (nat SCREEN_WIDTH)) (mode4_pixel y) (vb, s) = Inr st' \<and> ?I st'"
  proof (rule foreach_invariant)
    show "?I (vb, s)" using vb by (simp add: line_rel_refl)
  next
    fix x st
    assume xin: "x \<in> set (range (nat SCREEN_WIDTH))" and I: "?I st"
    obtain v t where st: "st = (v, t)" by (cases st)
    from I st have v: "0 \<le> v" and r: "line_rel y s t" by auto
    have x: "0 \<le> x" "x < SCREEN_WIDTH" using xin by (simp_all add: range_mem)
    have okt: "ppu_ok (ppu t)" using ppu_ok_line_rel [OF r ok] .
    have vlt: "len (mem_vram (memory t)) = VRAM_SIZE"
      "len (mem_palette_ram (memory t)) = PALETTE_RAM_SIZE" using r vl pl by (simp_all add: line_rel_def)
    obtain t' where p: "mode4_pixel y x (v, t) = Inr (v + 1, t')" "line_rel y t t'"
      using mode4_pixel_rel [OF y x okt vlt v] by blast
    have "?I (v + 1, t')" using v line_rel_trans [OF r p(2)] by auto
    then show "\<exists>st'. mode4_pixel y x st = Inr st' \<and> ?I st'" using p(1) st by blast
  qed
  then show ?thesis by auto
qed

lemma read_halfword_io0:
  assumes "len (mem_io_regs (memory s)) = IO_REG_SIZE"
  shows "mem_read_halfword s 0x04000000 =
     Inr (uint (mem_io_regs (memory s) ! 0) OR push_bit 8 (uint (mem_io_regs (memory s) ! 1)), s)"
  using assms
  by (simp add: mem_read_halfword_def get_memory_region_and_offset_def Let_def region_buf_def
      rbind_def bytearray_get_in_range)

lemma read_halfword_io4:
  assumes "len (mem_io_regs (memory s)) = IO_REG_SIZE"
  shows "mem_read_halfword s 0x04000004 =
     Inr (uint (mem_io_regs (memory s) ! 4) OR push_bit 8 (uint (mem_io_regs (memory s) ! 5)), s)"
  using assms
  by (simp add: mem_read_halfword_def get_memory_region_and_offset_def Let_def region_buf_def
      rbind_def bytearray_get_in_range)

lemma small_and_ff: "0 \<le> (v::int) \<Longrightarrow> v < 256 \<Longrightarrow> v AND 0xFF = v"
proof -
  assume a: "0 \<le> v" "v < 256"
  have "v AND mask 8 = v" using a by (simp add: take_bit_int_eq_self flip: take_bit_eq_mask)
  then show ?thesis by (simp add: mask_eq_exp_minus_1)
qed

lemma write_vcount:
  assumes "len (mem_io_regs (memory s)) = IO_REG_SIZE" "0 \<le> v" "v < 256"
  shows "mem_write_byte s 0x04000006 v =
     Inr (s\<lparr>memory := (memory s)\<lparr>mem_io_regs := (mem_io_regs (memory s))[6 := word_of_int v]\<rparr>\<rparr>)"
  using assms
  by (simp add: mem_write_byte_def get_memory_region_and_offset_def Let_def region_buf_def
      rbind_def bytearray_set_in_range small_and_ff is_ppu_register_def write_register_byte_def
      set_region_buf_def)

lemma render_scanline_rel:
  assumes y: "0 \<le> y" "y < SCREEN_HEIGHT" and mok: "memory_ok (memory s)" and ok: "ppu_ok (ppu s)"
  shows "\<exists>s'. render_scanline s y = Inr s' \<and>
           line_rel y (s\<lparr>ppu := (ppu s)\<lparr>render_log := render_log (ppu s) @ [y]\<rparr>\<rparr>) s'"
proof -
  let ?s0 = "s\<lparr>ppu := (ppu s)\<lparr>render_log := render_log (ppu s) @ [y]\<rparr>\<rparr>"
  let ?d = "uint (mem_io_regs (memory s) ! 0) OR push_bit 8 (uint (mem_io_regs (memory s) ! 1))"
  have io: "len (mem_io_regs (memory ?s0)) = IO_REG_SIZE" using mok by (simp add: memory_ok_def)
  have rd: "mem_read_halfword ?s0 (IO_REG_START + DISPCNT) = Inr (?d, ?s0)"
    using read_halfword_io0 [OF io] by simp
  have ok0: "ppu_ok (ppu ?s0)" using ok by (simp add: ppu_ok_def)
  have vl: "len (mem_vram (memory ?s0)) = VRAM_SIZE"
    "len (mem_palette_ram (memory ?s0)) = PALETTE_RAM_SIZE"
    using mok by (simp_all add: memory_ok_def)
  have xs: "\<forall>x \<in> set (range (nat SCREEN_WIDTH)). 0 \<le> x \<and> x < SCREEN_WIDTH"
    by (simp add: range_mem)
  have vo: "0 \<le> y * SCREEN_WIDTH * 2" using y by simp
  obtain f1 where f1: "fill_line ?s0 y ''#000000'' = Inr f1" "line_rel y ?s0 f1"
    using fill_line_rel [OF y ok0] by blast
  obtain f2 where f2: "fill_line ?s0 y ''#111111'' = Inr f2" "line_rel y ?s0 f2"
    using fill_line_rel [OF y ok0] by blast
  obtain v3 t3 where m3: "foreach (range (nat SCREEN_WIDTH)) (mode3_pixel y) (y * SCREEN_WIDTH * 2, ?s0) = Inr (v3, t3)"
    "line_rel y ?s0 t3"
    using mode3_loop_rel [OF y ok0 vl(1) vo xs] by blast
  have "\<And>page. 0 \<le> page \<Longrightarrow> \<exists>v4 t4. foreach (range (nat SCREEN_WIDTH)) (mode4_pixel y) (page + y * SCREEN_WIDTH, ?s0) = Inr (v4, t4) \<and> line_rel y ?s0 t4"
    using mode4_loop_rel [OF y ok0 vl] y by simp
  then obtain va ta vb tb where
    m4a: "foreach (range (nat SCREEN_WIDTH)) (mode4_pixel y) (0xA000 + y * SCREEN_WIDTH, ?s0) = Inr (va, ta)"
      "line_rel y ?s0 ta" and
    m4b: "foreach (range (nat SCREEN_WIDTH)) (mode4_pixel y) (0 + y * SCREEN_WIDTH, ?s0) = Inr (vb, tb)"
      "line_rel y ?s0 tb"
    by (metis order_refl zero_le_numeral)
  show ?thesis
    unfolding render_scanline_def Let_def rd
    using f1 f2 m3 m4a m4b by (simp add: rbind_def)
qed

lemma convert_white: "convert_color 0x7FFF = ''#ffffff''"
  by (simp add: convert_color_def tk_color_def fmt_02x_def hex_digit_def)

lemma range_240: "range 240 = 0 # map int [1..<240]"
  by (simp add: range_def upt_conv_Cons)

lemma render_scanline_white:
  assumes mok: "memory_ok (memory s)" and ok: "ppu_ok (ppu s)" and ck: "cache_ok (ppu s)"
    and mode: "(uint (mem_io_regs (memory s) ! 0) OR push_bit 8 (uint (mem_io_regs (memory s) ! 1))) AND 0x7 = 3"
    and blank: "drop_bit 7 (uint (mem_io_regs (memory s) ! 0) OR push_bit 8 (uint (mem_io_regs (memory s) ! 1))) AND 1 = 0"
    and px: "mem_vram (memory s) ! 0 = 0xFF" "mem_vram (memory s) ! 1 = 0x7F"
    and r: "render_scanline s 0 = Inr s'"
  shows "frame_buffer (ppu s') ! 0 = ''#ffffff''"
proof -
  let ?s0 = "s\<lparr>ppu := (ppu s)\<lparr>render_log := render_log (ppu s) @ [0]\<rparr>\<rparr>"
  let ?d = "uint (mem_io_regs (memory s) ! 0) OR push_bit 8 (uint (mem_io_regs (memory s) ! 1))"
  have io: "len (mem_io_regs (memory ?s0)) = IO_REG_SIZE" using mok by (simp add: memory_ok_def)
  have rd: "mem_read_halfword ?s0 (IO_REG_START + DISPCNT) = Inr (?d, ?s0)"
    using read_halfword_io0 [OF io] by simp
  have ok0: "ppu_ok (ppu ?s0)" using ok by (simp add: ppu_ok_def)
  have ck0: "cache_ok (ppu ?s0)" using ck by (simp add: cache_ok_def)
  have vl: "len (mem_vram (memory ?s0)) = VRAM_SIZE" using mok by (simp add: memory_ok_def)
  have y: "(0::int) \<le> 0" "(0::int) < SCREEN_HEIGHT" by simp_all
  have x0: "(0::int) \<le> 0" "(0::int) < SCREEN_WIDTH" by simp_all
  obtain s1 where p0: "mode3_pixel 0 0 (0, ?s0) = Inr (0 + 2, s1)" "line_rel 0 ?s0 s1"
    "cache_ok (ppu ?s0) \<and> (0::int) + 1 < VRAM_SIZE \<longrightarrow>
       frame_buffer (ppu s1) ! nat (0 * SCREEN_WIDTH + 0) =
         convert_color (uint (mem_vram (memory ?s0) ! nat 0) OR
                        push_bit 8 (uint (mem_vram (memory ?s0) ! nat (0 + 1))))"
    using mode3_pixel_rel [OF y x0 ok0 vl, of 0] by blast
  have w1: "frame_buffer (ppu s1) ! 0 = ''#ffffff''"
    using p0(3) ck0 px by (simp add: convert_white)
  have ok1: "ppu_ok (ppu s1)" using ppu_ok_line_rel [OF p0(2) ok0] .
  have vl1: "len (mem_vram (memory s1)) = VRAM_SIZE" using p0(2) vl by (simp add: line_rel_def)
  have xs: "\<forall>x \<in> set (map int [1..<240]). 0 \<le> x \<and> x < SCREEN_WIDTH" by auto
  obtain v2 s2 where l: "foreach (map int [1..<240]) (mode3_pixel 0) (2, s1) = Inr (v2, s2)"
    "\<forall>i. (\<forall>x \<in> set (map int [1..<240]). i \<noteq> nat (0 * SCREEN_WIDTH + x)) \<longrightarrow>
         frame_buffer (ppu s2) ! i = frame_buffer (ppu s1) ! i"
    using mode3_loop_rel [OF y ok1 vl1 _ xs, of 2] by auto
  have w2: "frame_buffer (ppu s2) ! 0 = ''#ffffff''" using l(2) w1 by auto
  have "render_scanline s 0 = Inr s2"
    unfolding render_scanline_def Let_def rd
    using mode blank p0(1) l(1) by (simp add: rbind_def range_240)
  with r w2 show ?thesis by simp
qed

lemma ppu_step_idle:
  assumes "\<not> cycles_scanline (ppu s) + c \<ge> 1232"
  shows "ppu_step s c = Inr (s\<lparr>ppu := (ppu s)\<lparr>cycles_scanline := cycles_scanline (ppu s) + c\<rparr>\<rparr>)"
  using assms by (simp add: ppu_step_def Let_def)

lemma ppu_step_cross_eq:
  assumes cross: "cycles_scanline (ppu s) + c \<ge> 1232"
    and r: "(if current_scanline (ppu s) < SCREEN_HEIGHT
             then render_scanline (s\<lparr>ppu := (ppu s)\<lparr>cycles_scanline := cycles_scanline (ppu s) + c - 1232\<rparr>\<rparr>)
                    (current_scanline (ppu s))
             else Inr (s\<lparr>ppu := (ppu s)\<lparr>cycles_scanline := cycles_scanline (ppu s) + c - 1232\<rparr>\<rparr>)) = Inr s3"
    and s3: "current_scanline (ppu s3) = current_scanline (ppu s)"
      "len (mem_io_regs (memory s3)) = IO_REG_SIZE"
    and sl: "0 \<le> current_scanline (ppu s)" "current_scanline (ppu s) < 228"
  shows "ppu_step s c =
     Inr (s3\<lparr>ppu := (ppu s3)\<lparr>current_scanline := (current_scanline (ppu s) + 1) mod 228\<rparr>,
            memory := (memory s3)\<lparr>mem_io_regs :=
              (mem_io_regs (memory s3))[6 := word_of_int ((current_scanline (ppu s) + 1) mod 228)]\<rparr>\<rparr>)"
proof -
  let ?sl = "current_scanline (ppu s)"
  let ?n = "(?sl + 1) mod 228"
  have n: "?n = (if ?sl + 1 = 228 then 0 else ?sl + 1)" using sl by simp
  note rules = ppu_step_def Let_def rbind_def write_vcount read_halfword_io4
    bytearray_get_in_range
  show ?thesis
  proof (cases "?sl < SCREEN_HEIGHT")
    case vis: True
    with r have rs: "render_scanline (s\<lparr>ppu := (ppu s)\<lparr>cycles_scanline := cycles_scanline (ppu s) + c - 1232\<rparr>\<rparr>) ?sl = Inr s3"
      by simp
    show ?thesis unfolding n using cross vis rs s3 sl
      by (simp add: rules)
  next
    case inv: False
    with r have rs: "s3 = s\<lparr>ppu := (ppu s)\<lparr>cycles_scanline := cycles_scanline (ppu s) + c - 1232\<rparr>\<rparr>"
      by simp
    have io: "len (mem_io_regs (memory s)) = IO_REG_SIZE" using s3(2) rs by simp
    show ?thesis unfolding n rs using cross inv io sl
      by (simp add: rules)
  qed
qed

lemma memory_ok_vcount:
  "memory_ok m \<Longrightarrow> memory_ok (m\<lparr>mem_io_regs := (mem_io_regs m)[6 := w]\<rparr>)"
  by (simp add: memory_ok_def sram_view_def dummy_view_def)

lemma white_setup_vcount:
  "white_setup m \<Longrightarrow> white_setup (m\<lparr>mem_io_regs := (mem_io_regs m)[6 := w]\<rparr>)"
  by (simp add: white_setup_def dispcnt_of_def)

lemma ppu_step_cross:
  assumes cross: "cycles_scanline (ppu s) + c \<ge> 1232"
    and mok: "memory_ok (memory s)" and ok: "ppu_ok (ppu s)"
    and sl: "0 \<le> current_scanline (ppu s)" "current_scanline (ppu s) < 228"
  shows "\<exists>s'. ppu_step s c = Inr s' \<and> cpu s' = cpu s \<and> keypad s' = keypad s \<and>
      memory s' = (memory s)\<lparr>mem_io_regs :=
         (mem_io_regs (memory s))[6 := word_of_int ((current_scanline (ppu s) + 1) mod 228)]\<rparr> \<and>
      cycles_scanline (ppu s') = cycles_scanline (ppu s) + c - 1232 \<and>
      current_scanline (ppu s') = (current_scanline (ppu s) + 1) mod 228 \<and>
      render_log (ppu s') = render_log (ppu s) @
         (if current_scanline (ppu s) < SCREEN_HEIGHT then [current_scanline (ppu s)] else []) \<and>
      ppu_ok (ppu s') \<and> (cache_ok (ppu s) \<longrightarrow> cache_ok (ppu s')) \<and>
      (\<forall>i. \<not> (current_scanline (ppu s) < SCREEN_HEIGHT \<and>
               nat (current_scanline (ppu s) * SCREEN_WIDTH) \<le> i \<and>
               i < nat (current_scanline (ppu s) * SCREEN_WIDTH + SCREEN_WIDTH)) \<longrightarrow>
           frame_buffer (ppu s') ! i = frame_buffer (ppu s) ! i) \<and>
      (current_scanline (ppu s) = 0 \<and> cache_ok (ppu s) \<and> white_setup (memory s) \<longrightarrow>
           frame_buffer (ppu s') ! 0 = ''#ffffff'')"
proof -
  let ?sl = "current_scanline (ppu s)"
  let ?s2 = "s\<lparr>ppu := (ppu s)\<lparr>cycles_scanline := cycles_scanline (ppu s) + c - 1232\<rparr>\<rparr>"
  have io: "len (mem_io_regs (memory s)) = IO_REG_SIZE" using mok by (simp add: memory_ok_def)
  show ?thesis
  proof (cases "?sl < SCREEN_HEIGHT")
    case True
    have mok2: "memory_ok (memory ?s2)" using mok by simp
    have ok2: "ppu_ok (ppu ?s2)" using ok by (simp add: ppu_ok_def)
    obtain s3 where r: "render_scanline ?s2 ?sl = Inr s3"
      "line_rel ?sl (?s2\<lparr>ppu := (ppu ?s2)\<lparr>render_log := render_log (ppu ?s2) @ [?sl]\<rparr>\<rparr>) s3"
      using render_scanline_rel [OF sl(1) True mok2 ok2] by blast
    have r': "(if ?sl < SCREEN_HEIGHT then render_scanline ?s2 ?sl else Inr ?s2) = Inr s3"
      using True r(1) by simp
    have f: "current_scanline (ppu s3) = ?sl" "len (mem_io_regs (memory s3)) = IO_REG_SIZE"
      using r(2) io by (simp_all add: line_rel_def)
    note e = ppu_step_cross_eq [OF cross r' f sl]
    have w: "?sl = 0 \<and> cache_ok (ppu s) \<and> white_setup (memory s) \<longrightarrow>
        frame_buffer (ppu s3) ! 0 = ''#ffffff''"
    proof
      assume a: "?sl = 0 \<and> cache_ok (ppu s) \<and> white_setup (memory s)"
      then have ck2: "cache_ok (ppu ?s2)" by (simp add: cache_ok_def)
      from a have ws: "dispcnt_of (memory s) AND 0x7 = 3" "drop_bit 7 (dispcnt_of (memory s)) AND 1 = 0"
        "mem_vram (memory s) ! 0 = 0xFF" "mem_vram (memory s) ! 1 = 0x7F"
        by (simp_all add: white_setup_def)
      from a r(1) have r0: "render_scanline ?s2 0 = Inr s3" by simp
      show "frame_buffer (ppu s3) ! 0 = ''#ffffff''"
        using render_scanline_white [OF mok2 ok2 ck2 _ _ _ _ r0] ws
        by (simp add: dispcnt_of_def)
    qed
    have l3: "memory s3 = memory s" "cpu s3 = cpu s" "keypad s3 = keypad s"
      "cycles_scanline (ppu s3) = cycles_scanline (ppu s) + c - 1232"
      "render_log (ppu s3) = render_log (ppu s) @ [?sl]"
      "length (frame_buffer (ppu s3)) = length (frame_buffer (ppu s))"
      using r(2) by (simp_all add: line_rel_def)
    have px: "\<forall>i. \<not> (nat (?sl * SCREEN_WIDTH) \<le> i \<and> i < nat (?sl * SCREEN_WIDTH + SCREEN_WIDTH)) \<longrightarrow>
        frame_buffer (ppu s3) ! i = frame_buffer (ppu s) ! i"
      using r(2) by (simp add: line_rel_def)
    have ck: "cache_ok (ppu s) \<longrightarrow> cache_ok (ppu s3)"
    proof
      assume "cache_ok (ppu s)"
      then have "cache_ok (ppu (?s2\<lparr>ppu := (ppu ?s2)\<lparr>render_log := render_log (ppu ?s2) @ [?sl]\<rparr>\<rparr>))"
        by (simp add: cache_ok_def)
      then show "cache_ok (ppu s3)" using r(2) unfolding line_rel_def by blast
    qed
    let ?n = "(?sl + 1) mod 228"
    let ?f = "s3\<lparr>ppu := (ppu s3)\<lparr>current_scanline := ?n\<rparr>,
            memory := (memory s3)\<lparr>mem_io_regs := (mem_io_regs (memory s3))[6 := word_of_int ?n]\<rparr>\<rparr>"
    have c1: "cpu ?f = cpu s" "keypad ?f = keypad s" using l3 by simp_all
    have c2: "memory ?f = (memory s)\<lparr>mem_io_regs := (mem_io_regs (memory s))[6 := word_of_int ?n]\<rparr>"
      using l3(1) by simp
    have c3: "cycles_scanline (ppu ?f) = cycles_scanline (ppu s) + c - 1232"
      "current_scanline (ppu ?f) = ?n" using l3 by simp_all
    have c4: "render_log (ppu ?f) = render_log (ppu s) @ (if ?sl < SCREEN_HEIGHT then [?sl] else [])"
      using l3(5) True by simp
    have c5: "ppu_ok (ppu ?f)" using ok l3(6) by (simp add: ppu_ok_def len_def)
    have fb: "frame_buffer (ppu ?f) = frame_buffer (ppu s3)" by simp
    have cc: "cache_ok (ppu ?f) = cache_ok (ppu s3)" by (simp add: cache_ok_def)
    have c6: "cache_ok (ppu s) \<longrightarrow> cache_ok (ppu ?f)" unfolding cc by (rule ck)
    have c7: "\<forall>i. \<not> (?sl < SCREEN_HEIGHT \<and> nat (?sl * SCREEN_WIDTH) \<le> i \<and>
               i < nat (?sl * SCREEN_WIDTH + SCREEN_WIDTH)) \<longrightarrow>
           frame_buffer (ppu ?f) ! i = frame_buffer (ppu s) ! i"
      unfolding fb using px True by blast
    have c8: "?sl = 0 \<and> cache_ok (ppu s) \<and> white_setup (memory s) \<longrightarrow>
           frame_buffer (ppu ?f) ! 0 = ''#ffffff''" unfolding fb by (rule w)
    show ?thesis
      apply (rule exI [of _ ?f])
      apply (intro conjI)
                apply (rule e)
               apply (rule c1(1))
              apply (rule c1(2))
             apply (rule c2)
            apply (rule c3(1))
           apply (rule c3(2))
          apply (rule c4)
         apply (rule c5)
        apply (rule c6)
       apply (rule c7)
      apply (rule c8)
      done
  next
    case False
    have r': "(if ?sl < SCREEN_HEIGHT then render_scanline ?s2 ?sl else Inr ?s2) = Inr ?s2"
      using False by simp
    have f: "current_scanline (ppu ?s2) = ?sl" "len (mem_io_regs (memory ?s2)) = IO_REG_SIZE"
      using io by simp_all
    note e = ppu_step_cross_eq [OF cross r' f sl]
    let ?n = "(?sl + 1) mod 228"
    let ?f = "?s2\<lparr>ppu := (ppu ?s2)\<lparr>current_scanline := ?n\<rparr>,
            memory := (memory ?s2)\<lparr>mem_io_regs := (mem_io_regs (memory ?s2))[6 := word_of_int ?n]\<rparr>\<rparr>"
    have c1: "cpu ?f = cpu s" "keypad ?f = keypad s" by simp_all
    have c2: "memory ?f = (memory s)\<lparr>mem_io_regs := (mem_io_regs (memory s))[6 := word_of_int ?n]\<rparr>"
      by simp
    have c3: "cycles_scanline (ppu ?f) = cycles_scanline (ppu s) + c - 1232"
      "current_scanline (ppu ?f) = ?n" by simp_all
    have c4: "render_log (ppu ?f) = render_log (ppu s) @ (if ?sl < SCREEN_HEIGHT then [?sl] else [])"
      using False by simp
    have c5: "ppu_ok (ppu ?f)" using ok by (simp add: ppu_ok_def)
    have fb: "frame_buffer (ppu ?f) = frame_buffer (ppu s)" by simp
    have cc: "cache_ok (ppu ?f) = cache_ok (ppu s)" by (simp add: cache_ok_def)
    have c6: "cache_ok (ppu s) \<longrightarrow> cache_ok (ppu ?f)" unfolding cc by simp
    have c7: "\<forall>i. \<not> (?sl < SCREEN_HEIGHT \<and> nat (?sl * SCREEN_WIDTH) \<le> i \<and>
               i < nat (?sl * SCREEN_WIDTH + SCREEN_WIDTH)) \<longrightarrow>
           frame_buffer (ppu ?f) ! i = frame_buffer (ppu s) ! i"
      unfolding fb by blast
    have nz: "?sl \<noteq> 0" using False by simp
    have c8: "?sl = 0 \<and> cache_ok (ppu s) \<and> white_setup (memory s) \<longrightarrow>
           frame_buffer (ppu ?f) ! 0 = ''#ffffff''" using nz by blast
    show ?thesis
      apply (rule exI [of _ ?f])
      apply (intro conjI)
                apply (rule e)
               apply (rule c1(1))
              apply (rule c1(2))
             apply (rule c2)
            apply (rule c3(1))
           apply (rule c3(2))
          apply (rule c4)
         apply (rule c5)
        apply (rule c6)
       apply (rule c7)
      apply (rule c8)
      done
  qed
qed

lemma advance_invariant:
  assumes step: "\<And>s n c. K s n \<Longrightarrow>
      \<exists>s'. ppu_step s c = Inr s' \<and>
        K s' (if cycles_scanline (ppu s) + c \<ge> 1232 then Suc n else n) \<and>
        cycles_scanline (ppu s') =
          (if cycles_scanline (ppu s) + c \<ge> 1232 then cycles_scanline (ppu s) + c - 1232
           else cycles_scanline (ppu s) + c)"
    and init: "K s n"
  shows "\<exists>s'. advance s cs = Inr s' \<and> K s' (n + crossings (cycles_scanline (ppu s)) cs)"
  using init
proof (induction cs arbitrary: s n)
  case Nil
  then show ?case by simp
next
  case (Cons c cs)
  obtain s1 where s1: "ppu_step s c = Inr s1"
    "K s1 (if cycles_scanline (ppu s) + c \<ge> 1232 then Suc n else n)"
    "cycles_scanline (ppu s1) =
       (if cycles_scanline (ppu s) + c \<ge> 1232 then cycles_scanline (ppu s) + c - 1232
        else cycles_scanline (ppu s) + c)"
    using step [OF Cons.prems, of c] by blast
  from Cons.IH [OF s1(2)] obtain s' where
    "advance s1 cs = Inr s'"
    "K s' ((if cycles_scanline (ppu s) + c \<ge> 1232 then Suc n else n) +
           crossings (cycles_scanline (ppu s1)) cs)"
    by blast
  then show ?case using s1(1,3) by (auto simp add: rbind_def)
qed

lemma next_scanline: "(int (n mod 228) + 1) mod 228 = int (Suc n mod 228)"
proof -
  have "(int (n mod 228) + 1) mod 228 = int ((n mod 228 + 1) mod 228)"
    by (simp add: zmod_int add.commute)
  also have "(n mod 228 + 1) mod 228 = Suc n mod 228" by (simp add: mod_Suc_eq)
  finally show ?thesis .
qed

lemma length_dummy_bios: "length dummy_bios = 16384"
  by (simp add: dummy_bios_def length_concat sum_list_replicate)

lemma gba_init_ok:
  "memory_ok (memory gba_init)" "ppu_ok (ppu gba_init)" "cache_ok (ppu gba_init)"
  "current_scanline (ppu gba_init) = 0" "cycles_scanline (ppu gba_init) = 0"
  "render_log (ppu gba_init) = []"
  by (simp_all add: gba_init_def memory_init_def ppu_init_def memory_ok_def ppu_ok_def
      cache_ok_def len_def length_dummy_bios sram_view_def dummy_view_def)

section \<open>The scanline clock\<close>






section \<open>A white pixel\<close>

lemma write_white:
  assumes "len (mem_vram (memory s)) = VRAM_SIZE"
  shows "mem_write_halfword s VRAM_START 0x7FFF =
     Inr (s\<lparr>memory := (memory s)\<lparr>mem_vram := (mem_vram (memory s))[0 := 0xFF, 1 := 0x7F]\<rparr>\<rparr>)"
  using assms
  by (simp add: mem_write_halfword_def get_memory_region_and_offset_def Let_def region_buf_def
      rbind_def bytearray_set_in_range set_region_buf_def)

lemma white_step:
  assumes mok: "memory_ok (memory s)" and ok: "ppu_ok (ppu s)" and ck: "cache_ok (ppu s)"
    and ws: "white_setup (memory s)"
    and sl: "current_scanline (ppu s) = int (n mod 228)"
    and px: "0 < n \<longrightarrow> frame_buffer (ppu s) ! 0 = ''#ffffff''"
  shows "\<exists>s'. ppu_step s c = Inr s' \<and>
      (memory_ok (memory s') \<and> ppu_ok (ppu s') \<and> cache_ok (ppu s') \<and> white_setup (memory s') \<and>
       current_scanline (ppu s') = int ((if cycles_scanline (ppu s) + c \<ge> 1232 then Suc n else n) mod 228) \<and>
       (0 < (if cycles_scanline (ppu s) + c \<ge> 1232 then Suc n else n) \<longrightarrow>
          frame_buffer (ppu s') ! 0 = ''#ffffff'')) \<and>
      cycles_scanline (ppu s') =
        (if cycles_scanline (ppu s) + c \<ge> 1232 then cycles_scanline (ppu s) + c - 1232
         else cycles_scanline (ppu s) + c)"
proof (cases "cycles_scanline (ppu s) + c \<ge> 1232")
  case False
  have "cache_ok (ppu s\<lparr>cycles_scanline := cycles_scanline (ppu s) + c\<rparr>)"
    using ck by (simp add: cache_ok_def)
  then show ?thesis unfolding ppu_step_idle [OF False] using False mok ok ws sl px
    by (simp add: ppu_ok_def)
next
  case True
  let ?sl = "current_scanline (ppu s)"
  have r: "0 \<le> ?sl" "?sl < 228" using sl by simp_all
  obtain s' where p: "ppu_step s c = Inr s'"
    "memory s' = (memory s)\<lparr>mem_io_regs :=
         (mem_io_regs (memory s))[6 := word_of_int ((?sl + 1) mod 228)]\<rparr>"
    "cycles_scanline (ppu s') = cycles_scanline (ppu s) + c - 1232"
    "current_scanline (ppu s') = (?sl + 1) mod 228"
    "ppu_ok (ppu s')" "cache_ok (ppu s) \<longrightarrow> cache_ok (ppu s')"
    "\<forall>i. \<not> (?sl < SCREEN_HEIGHT \<and> nat (?sl * SCREEN_WIDTH) \<le> i \<and>
               i < nat (?sl * SCREEN_WIDTH + SCREEN_WIDTH)) \<longrightarrow>
           frame_buffer (ppu s') ! i = frame_buffer (ppu s) ! i"
    "?sl = 0 \<and> cache_ok (ppu s) \<and> white_setup (memory s) \<longrightarrow>
           frame_buffer (ppu s') ! 0 = ''#ffffff''"
    using ppu_step_cross [OF True mok ok r] by blast
  have m: "memory_ok (memory s')" unfolding p(2) by (rule memory_ok_vcount [OF mok])
  have w: "white_setup (memory s')" unfolding p(2) by (rule white_setup_vcount [OF ws])
  have n: "current_scanline (ppu s') = int (Suc n mod 228)" unfolding p(4) sl by (rule next_scanline)
  have f: "frame_buffer (ppu s') ! 0 = ''#ffffff''"
  proof (cases "?sl = 0")
    case True
    then show ?thesis using p(8) ck ws by blast
  next
    case False
    then have "0 < n" using sl by (cases "n = 0") simp_all
    then have old: "frame_buffer (ppu s) ! 0 = ''#ffffff''" using px by blast
    have "1 \<le> ?sl" using False r by simp
    then have "\<not> nat (?sl * SCREEN_WIDTH) \<le> 0" by simp
    then have "frame_buffer (ppu s') ! 0 = frame_buffer (ppu s) ! 0" using p(7) by blast
    then show ?thesis using old by simp
  qed
  show ?thesis using True p(1,3,5,6) ck m w n f by simp
qed

lemma crossings_replicate: "crossings 0 (replicate n 1232) = n"
  by (induction n) simp_all

lemma tk_white: "tk_color 255 255 255 = ''#ffffff''"
  by (simp add: tk_color_def fmt_02x_def hex_digit_def)

text \<open>
  C7. Let the video unit be in its reset state, the display control register hold bitmap
  mode 3 with forced blank clear, and the colour cache hold only conversions. After the
  halfword 0x7FFF is written through the bus to the start of video RAM (scanline 0,
  pixel 0 of the mode-3 frame buffer), every sequence of \<open>PPU.step\<close> calls in which the
  accumulator reaches the scanline threshold at least once, in particular one full
  frame of 228 scanline periods, returns and leaves \<open>frame_buffer[0]\<close> equal to the colour
  string of the channel values (255, 255, 255), which is \<open>#ffffff\<close>. The frame buffer of
  the source holds such strings, not triples.
\<close>

theorem white_pixel_after_frame:
  assumes mok: "memory_ok (memory s)" and ok: "ppu_ok (ppu s)" and ck: "cache_ok (ppu s)"
    and reset: "current_scanline (ppu s) = 0" "cycles_scanline (ppu s) = 0"
    and rd: "mem_read_halfword s (IO_REG_START + DISPCNT) = Inr (dispcnt, s)"
    and mode: "dispcnt AND 0x7 = 3" and blank: "drop_bit 7 dispcnt AND 1 = 0"
    and frame: "0 < crossings 0 cs"
  shows "\<exists>s1 s2. mem_write_halfword s VRAM_START 0x7FFF = Inr s1 \<and> advance s1 cs = Inr s2 \<and>
           frame_buffer (ppu s2) ! 0 = tk_color 255 255 255 \<and>
           tk_color 255 255 255 = ''#ffffff'' \<and>
           current_scanline (ppu s2) = int (crossings 0 cs mod 228)"
proof -
  let ?s1 = "s\<lparr>memory := (memory s)\<lparr>mem_vram := (mem_vram (memory s))[0 := 0xFF, 1 := 0x7F]\<rparr>\<rparr>"
  have vl: "len (mem_vram (memory s)) = VRAM_SIZE" and io: "len (mem_io_regs (memory s)) = IO_REG_SIZE"
    using mok by (simp_all add: memory_ok_def)
  have w: "mem_write_halfword s VRAM_START 0x7FFF = Inr ?s1" by (rule write_white [OF vl])
  have d: "dispcnt = dispcnt_of (memory s)"
    using rd read_halfword_io0 [OF io] by (simp add: dispcnt_of_def)
  have vlen: "length (mem_vram (memory s)) = 98304" using vl by (simp add: len_def)
  have mok1: "memory_ok (memory ?s1)" using mok by (simp add: memory_ok_def sram_view_def dummy_view_def)
  have ws1: "white_setup (memory ?s1)"
    using mode blank vlen unfolding d by (simp add: white_setup_def dispcnt_of_def)
  have ok1: "ppu_ok (ppu ?s1)" "cache_ok (ppu ?s1)" using ok ck by simp_all
  let ?K = "\<lambda>(t::gba) n. memory_ok (memory t) \<and> ppu_ok (ppu t) \<and> cache_ok (ppu t) \<and>
      white_setup (memory t) \<and> current_scanline (ppu t) = int (n mod 228) \<and>
      (0 < n \<longrightarrow> frame_buffer (ppu t) ! 0 = ''#ffffff'')"
  have init: "?K ?s1 0" using mok1 ok1 ws1 reset by simp
  have "\<exists>s'. advance ?s1 cs = Inr s' \<and> ?K s' (0 + crossings (cycles_scanline (ppu ?s1)) cs)"
  proof (rule advance_invariant [where K = ?K, OF _ init])
    fix t n c
    assume k: "?K t n"
    show "\<exists>s'. ppu_step t c = Inr s' \<and>
        ?K s' (if cycles_scanline (ppu t) + c \<ge> 1232 then Suc n else n) \<and>
        cycles_scanline (ppu s') =
          (if cycles_scanline (ppu t) + c \<ge> 1232 then cycles_scanline (ppu t) + c - 1232
           else cycles_scanline (ppu t) + c)"
      using white_step [of t n c] k by blast
  qed
  then obtain s2 where a: "advance ?s1 cs = Inr s2" and k: "?K s2 (crossings 0 cs)"
    using reset(2) by auto
  have f: "frame_buffer (ppu s2) ! 0 = tk_color 255 255 255" using k frame by (simp add: tk_white)
  show ?thesis using w a f k tk_white by blast
qed

lemma gba_mode3_ok:
  "memory_ok (memory gba_mode3)" "ppu_ok (ppu gba_mode3)" "cache_ok (ppu gba_mode3)"
  "current_scanline (ppu gba_mode3) = 0" "cycles_scanline (ppu gba_mode3) = 0"
  using gba_init_ok by (simp_all add: gba_mode3_def memory_ok_def sram_view_def dummy_view_def)

lemma update_twice:
  "xs[0 := a, Suc 0 := b, 0 := a, Suc 0 := b] = xs[0 := a, Suc 0 := b]"
proof -
  have "xs[0 := a, Suc 0 := b, 0 := a] = xs[0 := a, 0 := a, Suc 0 := b]"
    by (rule list_update_swap) simp
  then show ?thesis by simp
qed

lemma dispcnt_written:
  "mem_write_halfword gba_init (IO_REG_START + DISPCNT) 3 = Inr gba_mode3"
  by (simp add: mem_write_halfword_def get_memory_region_and_offset_def Let_def region_buf_def
      rbind_def bytearray_set_def py_index_def set_region_buf_def is_ppu_register_def
      write_register_halfword_def gba_mode3_def gba_init_def memory_init_def len_def
      update_twice)

theorem white_pixel_after_frame_witness:
  "memory_ok (memory gba_mode3) \<and> ppu_ok (ppu gba_mode3) \<and> cache_ok (ppu gba_mode3) \<and>
   current_scanline (ppu gba_mode3) = 0 \<and> cycles_scanline (ppu gba_mode3) = 0 \<and>
   mem_write_halfword gba_init (IO_REG_START + DISPCNT) 3 = Inr gba_mode3 \<and>
   mem_read_halfword gba_mode3 (IO_REG_START + DISPCNT) = Inr (3, gba_mode3) \<and>
   (3::int) AND 0x7 = 3 \<and> drop_bit 7 (3::int) AND 1 = 0 \<and>
   0 < crossings 0 (replicate 228 1232) \<and>
   (\<exists>s1 s2. mem_write_halfword gba_mode3 VRAM_START 0x7FFF = Inr s1 \<and>
      advance s1 (replicate 228 1232) = Inr s2 \<and>
      frame_buffer (ppu s2) ! 0 = ''#ffffff'' \<and> current_scanline (ppu s2) = 0)"
proof -
  have rd: "mem_read_halfword gba_mode3 (IO_REG_START + DISPCNT) = Inr (3, gba_mode3)"
    by (simp add: mem_read_halfword_def get_memory_region_and_offset_def Let_def region_buf_def
        rbind_def bytearray_get_def py_index_def gba_mode3_def gba_init_def memory_init_def len_def)
  have m: "(3::int) AND 0x7 = 3" "drop_bit 7 (3::int) AND 1 = 0" by simp_all
  have f: "0 < crossings 0 (replicate 228 1232)" by (simp add: crossings_replicate)
  from white_pixel_after_frame [OF gba_mode3_ok rd m f]
  obtain s1 s2 where a: "mem_write_halfword gba_mode3 VRAM_START 0x7FFF = Inr s1"
    "advance s1 (replicate 228 1232) = Inr s2"
    "frame_buffer (ppu s2) ! 0 = tk_color 255 255 255" "tk_color 255 255 255 = ''#ffffff''"
    "current_scanline (ppu s2) = int (crossings 0 (replicate 228 1232) mod 228)"
    by blast
  have z: "current_scanline (ppu s2) = 0" unfolding a(5) crossings_replicate by simp
  have "\<exists>s1 s2. mem_write_halfword gba_mode3 VRAM_START 0x7FFF = Inr s1 \<and>
      advance s1 (replicate 228 1232) = Inr s2 \<and>
      frame_buffer (ppu s2) ! 0 = ''#ffffff'' \<and> current_scanline (ppu s2) = 0"
    using a(1,2,3,4) z by auto
  then show ?thesis using gba_mode3_ok dispcnt_written rd m f by blast
qed

end
